theory Spec2Isabelle
  imports Main
begin

section \<open>Data model of skiplist.py\<close>

text \<open>
  Python objects live in two stores, one per class: a \<open>ListNode\<close> reference is an index
  into \<open>lnodes\<close>, a \<open>FastNode\<close> reference an index into \<open>fnodes\<close>. Creating an object
  appends it to its store, so a new reference differs from every older one, as in Python.
  An attribute that may hold \<open>None\<close> is an \<open>option\<close>.
\<close>

type_synonym lref = nat
type_synonym fref = nat

datatype pyval = PyNone | PyInt int

record ListNode =
  l_data :: pyval
  l_prev :: "lref option"
  l_next :: "lref option"
  l_fast :: "fref option"

record FastNode =
  f_target :: "lref option"
  f_prev :: "fref option"
  f_next :: "fref option"
  f_gap :: int

record SkipList =
  lnodes :: "ListNode list"
  fnodes :: "FastNode list"
  head :: "lref option"
  tail :: "lref option"
  size_sl :: int
  fast_head :: "fref option"
  fast_tail :: "fref option"
  fast_count :: int
  pending_gap :: int
  current_skip :: int
  ops_since_rebalance :: int

datatype error = IndexError | ValueError | AttributeError | TypeError

definition MIN_SKIP :: int where
  "MIN_SKIP = 25"

definition REBALANCE_THRESHOLD :: int where
  "REBALANCE_THRESHOLD = 100"

text \<open>\<open>SkipList.__init__\<close>: the empty container, with both stores empty.\<close>

definition init_sl :: SkipList where
  "init_sl = \<lparr>lnodes = [], fnodes = [], head = None, tail = None, size_sl = 0,
     fast_head = None, fast_tail = None, fast_count = 0, pending_gap = 0,
     current_skip = MIN_SKIP, ops_since_rebalance = 0\<rparr>"

subsection \<open>Attribute assignment and object creation\<close>

definition set_l_prev :: "lref \<Rightarrow> lref option \<Rightarrow> SkipList \<Rightarrow> SkipList" where
  "set_l_prev a v s = s\<lparr>lnodes := (lnodes s)[a := (lnodes s ! a)\<lparr>l_prev := v\<rparr>]\<rparr>"

definition set_l_next :: "lref \<Rightarrow> lref option \<Rightarrow> SkipList \<Rightarrow> SkipList" where
  "set_l_next a v s = s\<lparr>lnodes := (lnodes s)[a := (lnodes s ! a)\<lparr>l_next := v\<rparr>]\<rparr>"

definition set_l_fast :: "lref \<Rightarrow> fref option \<Rightarrow> SkipList \<Rightarrow> SkipList" where
  "set_l_fast a v s = s\<lparr>lnodes := (lnodes s)[a := (lnodes s ! a)\<lparr>l_fast := v\<rparr>]\<rparr>"

definition set_f_target :: "fref \<Rightarrow> lref option \<Rightarrow> SkipList \<Rightarrow> SkipList" where
  "set_f_target a v s = s\<lparr>fnodes := (fnodes s)[a := (fnodes s ! a)\<lparr>f_target := v\<rparr>]\<rparr>"

definition set_f_prev :: "fref \<Rightarrow> fref option \<Rightarrow> SkipList \<Rightarrow> SkipList" where
  "set_f_prev a v s = s\<lparr>fnodes := (fnodes s)[a := (fnodes s ! a)\<lparr>f_prev := v\<rparr>]\<rparr>"

definition set_f_next :: "fref \<Rightarrow> fref option \<Rightarrow> SkipList \<Rightarrow> SkipList" where
  "set_f_next a v s = s\<lparr>fnodes := (fnodes s)[a := (fnodes s ! a)\<lparr>f_next := v\<rparr>]\<rparr>"

definition set_f_gap :: "fref \<Rightarrow> int \<Rightarrow> SkipList \<Rightarrow> SkipList" where
  "set_f_gap a v s = s\<lparr>fnodes := (fnodes s)[a := (fnodes s ! a)\<lparr>f_gap := v\<rparr>]\<rparr>"

text \<open>\<open>ListNode(data)\<close>: all three links start as \<open>None\<close>.\<close>

definition new_ListNode :: "pyval \<Rightarrow> SkipList \<Rightarrow> lref \<times> SkipList" where
  "new_ListNode v s =
     (length (lnodes s),
      s\<lparr>lnodes := lnodes s @ [\<lparr>l_data = v, l_prev = None, l_next = None, l_fast = None\<rparr>]\<rparr>)"

text \<open>\<open>FastNode(target, prev, next, gap)\<close>.\<close>

definition new_FastNode ::
  "lref option \<Rightarrow> fref option \<Rightarrow> fref option \<Rightarrow> int \<Rightarrow> SkipList \<Rightarrow> fref \<times> SkipList" where
  "new_FastNode tg pv nx g s =
     (length (fnodes s),
      s\<lparr>fnodes := fnodes s @ [\<lparr>f_target = tg, f_prev = pv, f_next = nx, f_gap = g\<rparr>]\<rparr>)"

section \<open>Core helpers\<close>

subsection \<open>Skip policy\<close>

text \<open>
  The source computes with floats: \<open>current_skip * 1.5\<close> and \<open>size ** 0.5\<close>. Both are
  exact on the integers a list can hold (below \<open>2 ^ 52\<close>), so the model uses exact
  arithmetic: \<open>size > current_skip * 1.5\<close> is \<open>2 * size > 3 * current_skip\<close>,
  \<open>int(current_skip * 1.5)\<close> truncates \<open>3 * current_skip / 2\<close> towards zero, and
  \<open>int(size ** 0.5)\<close> is the integer square root.
\<close>

fun sqrt_search :: "nat \<Rightarrow> nat \<Rightarrow> nat" where
  "sqrt_search 0 n = 0"
| "sqrt_search (Suc k) n = (if Suc k * Suc k \<le> n then Suc k else sqrt_search k n)"

definition int_sqrt :: "int \<Rightarrow> int" where
  "int_sqrt n = int (sqrt_search (nat n) (nat n))"

definition int_times_growth :: "int \<Rightarrow> int" where
  "int_times_growth c = (if 0 \<le> c then (3 * c) div 2 else - ((3 * (- c)) div 2))"

definition get_dynamic_skip :: "SkipList \<Rightarrow> int \<times> SkipList" where
  "get_dynamic_skip s =
     (if size_sl s \<le> 1 then (MIN_SKIP, s)
      else
        let s1 = (if 2 * size_sl s > 3 * current_skip s
                  then s\<lparr>current_skip :=
                         min (int_times_growth (current_skip s)) (int_sqrt (size_sl s))\<rparr>
                  else s)
        in (max MIN_SKIP (current_skip s1), s1))"

subsection \<open>Fast layer maintenance\<close>

definition clear_fast_layer :: "SkipList \<Rightarrow> SkipList" where
  "clear_fast_layer s =
     (let s1 = s\<lparr>fast_head := None, fast_tail := None, fast_count := 0\<rparr>;
          s2 = (case head s1 of None \<Rightarrow> s1 | Some h \<Rightarrow> set_l_fast h None s1);
          s3 = (case tail s2 of None \<Rightarrow> s2 | Some t \<Rightarrow> set_l_fast t None s2)
      in s3)"

definition update_tail_fast :: "SkipList \<Rightarrow> SkipList" where
  "update_tail_fast s =
     (case fast_tail s of
        None \<Rightarrow> s
      | Some ft \<Rightarrow>
          let s1 = set_f_target ft (tail s) s
          in (case tail s1 of None \<Rightarrow> s1 | Some t \<Rightarrow> set_l_fast t (Some ft) s1))"

text \<open>
  \<open>_init_fast_layer\<close>. Inside the \<open>try\<close> block \<open>self.head\<close> is not \<open>None\<close> and every
  other access is guarded, so nothing raises and the \<open>except\<close> branch is never taken; the
  verification after the construction is kept.
\<close>

definition init_fast_layer :: "SkipList \<Rightarrow> SkipList" where
  "init_fast_layer s =
     (case head s of
        None \<Rightarrow> s
      | Some h \<Rightarrow>
          if fast_head s \<noteq> None then s
          else
            let (fh, s1) = new_FastNode (head s) None None 0 s;
                s2 = s1\<lparr>fast_head := Some fh\<rparr>;
                s3 = set_l_fast h (Some fh) s2;
                (ft, s4) = (if head s3 = tail s3
                            then new_FastNode (tail s3) (Some fh) None 0 s3
                            else new_FastNode (tail s3) (Some fh) None
                                   (max 1 (size_sl s3 - 1)) s3);
                s5 = s4\<lparr>fast_tail := Some ft\<rparr>;
                s6 = update_tail_fast s5;
                s7 = set_f_next fh (Some ft) s6;
                s8 = set_f_prev ft (Some fh) s7;
                s9 = s8\<lparr>fast_count := 2\<rparr>
            in if f_target (fnodes s9 ! fh) = None \<or> f_target (fnodes s9 ! ft) = None
               then clear_fast_layer s9 else s9)"

definition append_fast :: "lref option \<Rightarrow> int \<Rightarrow> SkipList \<Rightarrow> SkipList" where
  "append_fast node gap s =
     (case fast_tail s of
        None \<Rightarrow> s
      | Some ft \<Rightarrow>
          (case f_prev (fnodes s ! ft) of
             None \<Rightarrow> s
           | Some p \<Rightarrow>
               (case node of
                  None \<Rightarrow> s
                | Some n \<Rightarrow>
                    let (fn, s1) = new_FastNode (Some n) (Some p) (Some ft) gap s;
                        s2 = set_f_next p (Some fn) s1;
                        s3 = set_f_prev ft (Some fn) s2;
                        s4 = set_l_fast n (Some fn) s3
                    in s4\<lparr>fast_count := fast_count s4 + 1\<rparr>)))"

definition remove_fast :: "fref option \<Rightarrow> SkipList \<Rightarrow> SkipList" where
  "remove_fast fno s =
     (case fno of
        None \<Rightarrow> s
      | Some fn \<Rightarrow>
          if fast_head s = Some fn \<or> fast_tail s = Some fn then s
          else
            let s1 = (case f_prev (fnodes s ! fn) of
                        None \<Rightarrow> s
                      | Some p \<Rightarrow>
                          (case f_next (fnodes s ! fn) of
                             None \<Rightarrow> s
                           | Some nx \<Rightarrow>
                               set_f_gap nx
                                 (max 1 (f_gap (fnodes s ! nx) + f_gap (fnodes s ! fn))) s));
                s2 = (case f_prev (fnodes s1 ! fn) of
                        None \<Rightarrow> s1
                      | Some p \<Rightarrow> set_f_next p (f_next (fnodes s1 ! fn)) s1);
                s3 = (case f_next (fnodes s2 ! fn) of
                        None \<Rightarrow> s2
                      | Some nx \<Rightarrow> set_f_prev nx (f_prev (fnodes s2 ! fn)) s2);
                s4 = (case f_target (fnodes s3 ! fn) of
                        None \<Rightarrow> s3
                      | Some t \<Rightarrow> set_l_fast t None s3);
                s5 = set_f_target fn None (set_f_next fn None (set_f_prev fn None s4))
            in if fast_count s5 > 2 then s5\<lparr>fast_count := fast_count s5 - 1\<rparr> else s5)"


subsection \<open>Rebalancing\<close>

text \<open>
  \<open>fast_count < (size ** 0.5) / 2\<close> for \<open>size \<ge> 0\<close>, in exact arithmetic. For a
  negative size Python's \<open>**\<close> yields a complex number and the comparison raises
  \<open>TypeError\<close>; the callers below check the sign first.
\<close>

definition below_half_sqrt :: "int \<Rightarrow> int \<Rightarrow> bool" where
  "below_half_sqrt fc sz = (fc < 0 \<or> 4 * fc * fc < sz)"

text \<open>
  The first loop of \<open>_rebalance\<close>: walk the anchors after the head sentinel and clear
  the back-reference of each target. The loop follows \<open>next\<close> links and need not end on
  a cyclic chain, so its result is an \<open>option\<close>, \<open>None\<close> for a run that never returns.
\<close>

partial_function (option) clear_anchor_links :: "fref option \<Rightarrow> SkipList \<Rightarrow> SkipList option" where
  "clear_anchor_links current s =
     (case current of
        None \<Rightarrow> Some s
      | Some c \<Rightarrow>
          if fast_tail s = Some c then Some s
          else
            let s1 = (case f_target (fnodes s ! c) of
                        None \<Rightarrow> s
                      | Some t \<Rightarrow> set_l_fast t None s)
            in clear_anchor_links (f_next (fnodes s1 ! c)) s1)"

declare clear_anchor_links.simps [code]

text \<open>The second loop of \<open>_rebalance\<close>: walk the primary list and append anchors.\<close>

partial_function (option) rebuild_anchors ::
  "int \<Rightarrow> int \<Rightarrow> lref option \<Rightarrow> int \<Rightarrow> SkipList \<Rightarrow> SkipList option" where
  "rebuild_anchors skip counter main_cur gap s =
     (case main_cur of
        None \<Rightarrow> Some s
      | Some m \<Rightarrow>
          if tail s = Some m then Some s
          else
            if counter > 0 \<and> counter mod skip = 0 \<and> l_next (lnodes s ! m) \<noteq> None
            then
              let s1 = append_fast (Some m) (gap + 1) s
              in rebuild_anchors skip (counter + 1) (l_next (lnodes s1 ! m)) 0 s1
            else rebuild_anchors skip (counter + 1) (l_next (lnodes s ! m)) (gap + 1) s)"

declare rebuild_anchors.simps [code]

definition rebalance :: "SkipList \<Rightarrow> ((error + unit) \<times> SkipList) option" where
  "rebalance s =
     (case fast_head s of
        None \<Rightarrow> Some (Inr (), s)
      | Some fh \<Rightarrow>
          (case fast_tail s of
             None \<Rightarrow> Some (Inr (), s)
           | Some ft \<Rightarrow>
               (case head s of
                  None \<Rightarrow> Some (Inr (), s)
                | Some h \<Rightarrow>
                    if size_sl s < 0 then Some (Inl TypeError, s)
                    else
                      let s1 = (if below_half_sqrt (fast_count s) (size_sl s)
                                then s\<lparr>current_skip := max MIN_SKIP (current_skip s div 2)\<rparr>
                                else s)
                      in (case clear_anchor_links (f_next (fnodes s1 ! fh)) s1 of
                            None \<Rightarrow> None
                          | Some s2 \<Rightarrow>
                              let s3 = set_f_next fh (Some ft) s2;
                                  s4 = set_f_prev ft (Some fh) s3;
                                  s5 = s4\<lparr>fast_count := 2\<rparr>;
                                  (skip, s6) = get_dynamic_skip s5
                              in (case rebuild_anchors skip 0 (head s6) 0 s6 of
                                    None \<Rightarrow> None
                                  | Some s7 \<Rightarrow> Some (Inr (), update_tail_fast s7))))))"

definition run_rebalance :: "SkipList \<Rightarrow> ((error + unit) \<times> SkipList) option" where
  "run_rebalance s =
     (case rebalance s of
        None \<Rightarrow> None
      | Some (Inl e, s1) \<Rightarrow> Some (Inl e, s1)
      | Some (Inr u, s1) \<Rightarrow> Some (Inr (), s1\<lparr>ops_since_rebalance := 0\<rparr>))"

definition check_and_rebalance :: "SkipList \<Rightarrow> ((error + unit) \<times> SkipList) option" where
  "check_and_rebalance s =
     (let s1 = s\<lparr>ops_since_rebalance := ops_since_rebalance s + 1\<rparr>
      in if ops_since_rebalance s1 \<ge> REBALANCE_THRESHOLD then run_rebalance s1
         else if fast_count s1 > 2
         then (if size_sl s1 < 0 then Some (Inl TypeError, s1)
               else if below_half_sqrt (fast_count s1) (size_sl s1) then run_rebalance s1
               else Some (Inr (), s1))
         else Some (Inr (), s1))"

section \<open>Core operations\<close>

subsection \<open>add\<close>

text \<open>
  An operation returns its result, or the error it raised, together with the container as
  it is at that moment: a Python exception leaves the object as far as the method got.
\<close>

definition add :: "pyval \<Rightarrow> SkipList \<Rightarrow> (error + unit) \<times> SkipList" where
  "add v s =
     (let (node, s1) = new_ListNode v s
      in case head s1 of
           None \<Rightarrow>
             let s2 = s1\<lparr>head := Some node, tail := Some node\<rparr>;
                 s3 = s2\<lparr>size_sl := 1\<rparr>;
                 s4 = init_fast_layer s3
             in (Inr (), s4\<lparr>pending_gap := 0\<rparr>)
         | Some h \<Rightarrow>
             let s2 = set_l_prev node (tail s1) s1
             in (case tail s2 of
                   None \<Rightarrow> (Inl AttributeError, s2)
                 | Some t \<Rightarrow>
                     let s3 = set_l_next t (Some node) s2;
                         s4 = s3\<lparr>tail := Some node\<rparr>;
                         s5 = s4\<lparr>size_sl := size_sl s4 + 1\<rparr>;
                         s6 = update_tail_fast s5;
                         s7 = s6\<lparr>pending_gap := pending_gap s6 + 1\<rparr>;
                         (skip, s8) = get_dynamic_skip s7
                     in if pending_gap s8 \<ge> skip
                        then
                          let before_tail = l_prev (lnodes s8 ! node);
                              s9 = append_fast before_tail (pending_gap s8 - 1) s8
                          in (case fast_tail s9 of
                                None \<Rightarrow> (Inl AttributeError, s9)
                              | Some ft \<Rightarrow> (Inr (), (set_f_gap ft 1 s9)\<lparr>pending_gap := 1\<rparr>))
                        else
                          (case fast_tail s8 of
                             None \<Rightarrow> (Inl AttributeError, s8)
                           | Some ft \<Rightarrow> (Inr (), set_f_gap ft (pending_gap s8) s8))))"

subsection \<open>get_node\<close>

text \<open>
  \<open>for _ in range(k): if cur is None: break; cur = cur.next\<close>, and the same loop over
  \<open>prev\<close>. The loops \<open>while walked < index and cur\<close> and \<open>while walked > index and cur\<close>
  that end \<open>get_node\<close> take the same steps, \<open>index - walked\<close> resp. \<open>walked - index\<close>
  of them (none when that is not positive).
\<close>

fun walk_next :: "ListNode list \<Rightarrow> nat \<Rightarrow> lref option \<Rightarrow> lref option" where
  "walk_next ls 0 cur = cur"
| "walk_next ls (Suc k) cur =
     (case cur of None \<Rightarrow> None | Some c \<Rightarrow> walk_next ls k (l_next (ls ! c)))"

fun walk_prev :: "ListNode list \<Rightarrow> nat \<Rightarrow> lref option \<Rightarrow> lref option" where
  "walk_prev ls 0 cur = cur"
| "walk_prev ls (Suc k) cur =
     (case cur of None \<Rightarrow> None | Some c \<Rightarrow> walk_prev ls k (l_prev (ls ! c)))"

definition get_node_normal :: "int \<Rightarrow> SkipList \<Rightarrow> error + lref option" where
  "get_node_normal index s =
     (if index < 0 \<or> index \<ge> size_sl s then Inl IndexError
      else if index \<le> size_sl s div 2
      then Inr (walk_next (lnodes s) (nat index) (head s))
      else Inr (walk_prev (lnodes s) (nat (size_sl s - 1 - index)) (tail s)))"

text \<open>
  The anchor walks of \<open>get_node\<close>. Each returns either the node and position it stopped at,
  or \<open>Fallback\<close> when it met an anchor without a target and the method returns
  \<open>_get_node_normal(index)\<close>.
\<close>

datatype walk = Fallback | Stopped "lref option" int

partial_function (option) forward_anchors ::
  "SkipList \<Rightarrow> int \<Rightarrow> fref option \<Rightarrow> lref option \<Rightarrow> int \<Rightarrow> walk option" where
  "forward_anchors s index fast cur walked =
     (case fast of
        None \<Rightarrow> Some (Stopped cur walked)
      | Some f \<Rightarrow>
          (case f_next (fnodes s ! f) of
             None \<Rightarrow> Some (Stopped cur walked)
           | Some nx \<Rightarrow>
               if fast_tail s = Some nx then Some (Stopped cur walked)
               else if walked + f_gap (fnodes s ! nx) > index then Some (Stopped cur walked)
               else
                 (case f_target (fnodes s ! nx) of
                    None \<Rightarrow> Some Fallback
                  | Some t \<Rightarrow>
                      forward_anchors s index (Some nx) (Some t)
                        (walked + f_gap (fnodes s ! nx)))))"

declare forward_anchors.simps [code]

partial_function (option) backward_anchors ::
  "SkipList \<Rightarrow> int \<Rightarrow> fref option \<Rightarrow> lref option \<Rightarrow> int \<Rightarrow> walk option" where
  "backward_anchors s index fast cur walked =
     (case fast of
        None \<Rightarrow> Some (Stopped cur walked)
      | Some f \<Rightarrow>
          (case f_prev (fnodes s ! f) of
             None \<Rightarrow> Some (Stopped cur walked)
           | Some pv \<Rightarrow>
               if fast_head s = Some pv then Some (Stopped cur walked)
               else if walked - f_gap (fnodes s ! f) < index then Some (Stopped cur walked)
               else
                 (case f_target (fnodes s ! pv) of
                    None \<Rightarrow> Some Fallback
                  | Some t \<Rightarrow>
                      backward_anchors s index (Some pv) (Some t)
                        (walked - f_gap (fnodes s ! f)))))"

declare backward_anchors.simps [code]

definition get_node :: "int \<Rightarrow> SkipList \<Rightarrow> ((error + lref option) \<times> SkipList) option" where
  "get_node index s =
     (if index < 0 \<or> index \<ge> size_sl s then Some (Inl IndexError, s)
      else if index = 0 then Some (Inr (head s), s)
      else if index = size_sl s - 1 then Some (Inr (tail s), s)
      else if fast_head s = None \<or> fast_count s \<le> 2 then Some (get_node_normal index s, s)
      else
        let (skip, s1) = get_dynamic_skip s
        in if size_sl s1 < skip then Some (get_node_normal index s1, s1)
           else if index \<le> size_sl s1 div 2
           then
             (case forward_anchors s1 index (fast_head s1) (head s1) 0 of
                None \<Rightarrow> None
              | Some Fallback \<Rightarrow> Some (get_node_normal index s1, s1)
              | Some (Stopped cur walked) \<Rightarrow>
                  Some (Inr (walk_next (lnodes s1) (nat (index - walked)) cur), s1))
           else
             (case backward_anchors s1 index (fast_tail s1) (tail s1) (size_sl s1 - 1) of
                None \<Rightarrow> None
              | Some Fallback \<Rightarrow> Some (get_node_normal index s1, s1)
              | Some (Stopped cur walked) \<Rightarrow>
                  Some (Inr (walk_prev (lnodes s1) (nat (walked - index)) cur), s1)))"


subsection \<open>insert and remove_at\<close>

text \<open>
  The loop that opens the interior cases of \<open>insert\<close> and \<open>remove_at\<close>: it returns
  \<open>update_fast\<close>, the first anchor whose accumulated gap exceeds the index, or \<open>None\<close>
  when the chain ends first.
\<close>

partial_function (option) find_update_fast ::
  "SkipList \<Rightarrow> int \<Rightarrow> fref option \<Rightarrow> int \<Rightarrow> fref option option" where
  "find_update_fast s index fast traversed =
     (case fast of
        None \<Rightarrow> Some None
      | Some f \<Rightarrow>
          (case f_next (fnodes s ! f) of
             None \<Rightarrow> Some None
           | Some nx \<Rightarrow>
               if traversed + f_gap (fnodes s ! nx) > index then Some (Some nx)
               else find_update_fast s index (Some nx) (traversed + f_gap (fnodes s ! nx))))"

declare find_update_fast.simps [code]

definition insert_sl :: "int \<Rightarrow> pyval \<Rightarrow> SkipList \<Rightarrow> ((error + unit) \<times> SkipList) option" where
  "insert_sl index v s =
     (if index < 0 \<or> index > size_sl s then Some (Inl IndexError, s)
      else if index = size_sl s then Some (add v s)
      else if index = 0
      then
        let (node, s1) = new_ListNode v s;
            s2 = set_l_next node (head s1) s1;
            s3 = (case head s2 of
                    Some h \<Rightarrow> set_l_prev h (Some node) s2
                  | None \<Rightarrow> s2\<lparr>tail := Some node\<rparr>);
            s4 = s3\<lparr>head := Some node\<rparr>;
            s5 = s4\<lparr>size_sl := size_sl s4 + 1\<rparr>
        in if size_sl s5 = 1 then Some (Inr (), init_fast_layer s5)
           else
             (case fast_head s5 of
                None \<Rightarrow> Some (Inr (), s5)
              | Some fh \<Rightarrow>
                  let s6 = set_f_target fh (head s5) s5;
                      s7 = set_l_fast node (Some fh) s6
                  in (case f_next (fnodes s7 ! fh) of
                        None \<Rightarrow> Some (Inr (), s7)
                      | Some nx \<Rightarrow>
                          Some (Inr (), set_f_gap nx (max 1 (f_gap (fnodes s7 ! nx) + 1)) s7)))
      else
        (case find_update_fast s index (fast_head s) 0 of
           None \<Rightarrow> None
         | Some update_fast \<Rightarrow>
             (case get_node index s of
                None \<Rightarrow> None
              | Some (Inl e, s1) \<Rightarrow> Some (Inl e, s1)
              | Some (Inr None, s1) \<Rightarrow> Some (Inl ValueError, s1)
              | Some (Inr (Some curr_node), s1) \<Rightarrow>
                  let (node, s2) = new_ListNode v s1;
                      s3 = set_l_prev node (l_prev (lnodes s2 ! curr_node)) s2;
                      s4 = set_l_next node (Some curr_node) s3;
                      s5 = (case l_prev (lnodes s4 ! curr_node) of
                              None \<Rightarrow> s4
                            | Some p \<Rightarrow> set_l_next p (Some node) s4);
                      s6 = set_l_prev curr_node (Some node) s5;
                      s7 = s6\<lparr>size_sl := size_sl s6 + 1\<rparr>;
                      s8 = (case update_fast of
                              None \<Rightarrow> s7
                            | Some u \<Rightarrow> set_f_gap u (max 1 (f_gap (fnodes s7 ! u) + 1)) s7)
                  in if index > 1 \<and> index < size_sl s8 - 1
                     then
                       let (skip, s9) = get_dynamic_skip s8
                       in if (index + 1) mod skip = 0 then check_and_rebalance s9
                          else Some (Inr (), s9)
                     else Some (Inr (), s8))))"

definition dec_update_fast :: "fref option \<Rightarrow> SkipList \<Rightarrow> SkipList" where
  "dec_update_fast update_fast s =
     (case update_fast of
        None \<Rightarrow> s
      | Some u \<Rightarrow> set_f_gap u (max 1 (f_gap (fnodes s ! u) - 1)) s)"

definition remove_at :: "int \<Rightarrow> SkipList \<Rightarrow> ((error + pyval) \<times> SkipList) option" where
  "remove_at index s =
     (if index < 0 \<or> index \<ge> size_sl s then Some (Inl IndexError, s)
      else if index = 0
      then
        (case head s of
           None \<Rightarrow> Some (Inl AttributeError, s)
         | Some old_head \<Rightarrow>
             let d = l_data (lnodes s ! old_head);
                 s1 = s\<lparr>head := l_next (lnodes s ! old_head)\<rparr>;
                 s2 = (case head s1 of
                         Some h \<Rightarrow> set_l_prev h None s1
                       | None \<Rightarrow> s1\<lparr>tail := None\<rparr>);
                 s3 = s2\<lparr>size_sl := size_sl s2 - 1\<rparr>
             in if size_sl s3 = 0
                then Some (Inr d, (clear_fast_layer s3)\<lparr>pending_gap := 0, current_skip := MIN_SKIP\<rparr>)
                else
                  (case fast_head s3 of
                     None \<Rightarrow> Some (Inl AttributeError, s3)
                   | Some fh \<Rightarrow>
                       let s4 = set_f_target fh (head s3) s3
                       in (case head s4 of
                             None \<Rightarrow> Some (Inl AttributeError, s4)
                           | Some h \<Rightarrow>
                               let s5 = set_l_fast h (Some fh) s4
                               in (case f_next (fnodes s5 ! fh) of
                                     None \<Rightarrow> Some (Inr d, s5)
                                   | Some nx \<Rightarrow>
                                       Some (Inr d,
                                         set_f_gap nx (max 1 (f_gap (fnodes s5 ! nx) - 1)) s5)))))
      else if index = size_sl s - 1
      then
        (case tail s of
           None \<Rightarrow> Some (Inl AttributeError, s)
         | Some old_tail \<Rightarrow>
             let d = l_data (lnodes s ! old_tail)
             in (case l_prev (lnodes s ! old_tail) of
                   Some p \<Rightarrow>
                     let s1 = s\<lparr>tail := Some p\<rparr>;
                         s2 = set_l_next p None s1;
                         s3 = s2\<lparr>size_sl := size_sl s2 - 1\<rparr>;
                         s4 = update_tail_fast s3;
                         s5 = (case fast_tail s4 of
                                 None \<Rightarrow> s4
                               | Some ft \<Rightarrow>
                                   (case f_prev (fnodes s4 ! ft) of
                                      None \<Rightarrow> s4
                                    | Some q \<Rightarrow> set_f_gap ft (max 1 (pending_gap s4 - 1)) s4))
                     in Some (Inr d, s5\<lparr>pending_gap := max 0 (pending_gap s5 - 1)\<rparr>)
                 | None \<Rightarrow>
                     let s1 = s\<lparr>head := None, tail := None\<rparr>;
                         s2 = s1\<lparr>size_sl := 0\<rparr>
                     in Some (Inr d,
                          (clear_fast_layer s2)\<lparr>pending_gap := 0, current_skip := MIN_SKIP\<rparr>)))
      else
        (case find_update_fast s index (fast_head s) 0 of
           None \<Rightarrow> None
         | Some update_fast \<Rightarrow>
             (case get_node index s of
                None \<Rightarrow> None
              | Some (Inl e, s1) \<Rightarrow> Some (Inl e, s1)
              | Some (Inr None, s1) \<Rightarrow> Some (Inl ValueError, s1)
              | Some (Inr (Some target), s1) \<Rightarrow>
                  let d = l_data (lnodes s1 ! target);
                      s2 = (case l_prev (lnodes s1 ! target) of
                              None \<Rightarrow> s1
                            | Some p \<Rightarrow> set_l_next p (l_next (lnodes s1 ! target)) s1);
                      s3 = (case l_next (lnodes s2 ! target) of
                              None \<Rightarrow> s2
                            | Some n \<Rightarrow> set_l_prev n (l_prev (lnodes s2 ! target)) s2);
                      s4 = s3\<lparr>size_sl := size_sl s3 - 1\<rparr>;
                      s5 = (case l_fast (lnodes s4 ! target) of
                              None \<Rightarrow> dec_update_fast update_fast s4
                            | Some fast_node \<Rightarrow>
                                if fast_head s4 \<noteq> Some fast_node \<and> fast_tail s4 \<noteq> Some fast_node
                                then
                                  let s4a = (case f_next (fnodes s4 ! fast_node) of
                                               None \<Rightarrow> s4
                                             | Some nx \<Rightarrow>
                                                 set_f_gap nx
                                                   (f_gap (fnodes s4 ! nx)
                                                      + (f_gap (fnodes s4 ! fast_node) - 1)) s4)
                                  in remove_fast (Some fast_node) s4a
                                else dec_update_fast update_fast s4)
                  in if index > 1 \<and> index < size_sl s5 - 1
                     then
                       (case check_and_rebalance s5 of
                          None \<Rightarrow> None
                        | Some (Inl e, s6) \<Rightarrow> Some (Inl e, s6)
                        | Some (Inr u, s6) \<Rightarrow> Some (Inr d, s6))
                     else Some (Inr d, s5))))"

subsection \<open>remove\<close>

definition remove_node_and_update ::
  "lref \<Rightarrow> fref \<Rightarrow> SkipList \<Rightarrow> ((error + unit) \<times> SkipList) option" where
  "remove_node_and_update node nearest_fast s =
     (let s1 = (case l_prev (lnodes s ! node) of
                  None \<Rightarrow> s
                | Some p \<Rightarrow> set_l_next p (l_next (lnodes s ! node)) s);
          s2 = (case l_next (lnodes s1 ! node) of
                  None \<Rightarrow> s1
                | Some n \<Rightarrow> set_l_prev n (l_prev (lnodes s1 ! node)) s1);
          s3 = (case l_fast (lnodes s2 ! node) of
                  Some f \<Rightarrow> remove_fast (Some f) s2
                | None \<Rightarrow>
                    (case f_next (fnodes s2 ! nearest_fast) of
                       None \<Rightarrow> s2
                     | Some nx \<Rightarrow> set_f_gap nx (max 1 (f_gap (fnodes s2 ! nx) - 1)) s2));
          s4 = s3\<lparr>size_sl := size_sl s3 - 1\<rparr>
      in check_and_rebalance s4)"

text \<open>
  The loop of \<open>_search_chunk\<close>, \<open>while remaining > 0 and current != search_end\<close>. When
  \<open>current\<close> has run off the list it is \<open>None\<close>, which differs from \<open>search_end\<close>, and
  \<open>current.data\<close> raises \<open>AttributeError\<close>: that is \<open>Crash\<close>.
\<close>

datatype scan = Found lref | NotFound | Crash

fun scan_chunk :: "ListNode list \<Rightarrow> pyval \<Rightarrow> nat \<Rightarrow> lref option \<Rightarrow> lref \<Rightarrow> scan" where
  "scan_chunk ls v 0 current search_end = NotFound"
| "scan_chunk ls v (Suc remaining) current search_end =
     (case current of
        None \<Rightarrow> Crash
      | Some c \<Rightarrow>
          if c = search_end then NotFound
          else if l_data (ls ! c) = v then Found c
          else scan_chunk ls v remaining (l_next (ls ! c)) search_end)"

definition removed_true ::
  "((error + unit) \<times> SkipList) option \<Rightarrow> ((error + bool) \<times> SkipList) option" where
  "removed_true r =
     (case r of
        None \<Rightarrow> None
      | Some (Inl e, s1) \<Rightarrow> Some (Inl e, s1)
      | Some (Inr u, s1) \<Rightarrow> Some (Inr True, s1))"

definition search_chunk ::
  "fref option \<Rightarrow> pyval \<Rightarrow> SkipList \<Rightarrow> ((error + bool) \<times> SkipList) option" where
  "search_chunk fast v s =
     (case fast of
        None \<Rightarrow> Some (Inr False, s)
      | Some f \<Rightarrow>
          (case f_next (fnodes s ! f) of
             None \<Rightarrow> Some (Inr False, s)
           | Some nx \<Rightarrow>
               (case (case f_target (fnodes s ! f) of
                        None \<Rightarrow> None
                      | Some t \<Rightarrow> if l_data (lnodes s ! t) = v then Some t else None) of
                  Some t \<Rightarrow> removed_true (remove_node_and_update t f s)
                | None \<Rightarrow>
                    let current = (case f_target (fnodes s ! f) of
                                     None \<Rightarrow> None
                                   | Some t \<Rightarrow> l_next (lnodes s ! t));
                        search_end = f_target (fnodes s ! nx)
                    in (case current of
                          None \<Rightarrow> Some (Inr False, s)
                        | Some c \<Rightarrow>
                            (case search_end of
                               None \<Rightarrow> Some (Inr False, s)
                             | Some e \<Rightarrow>
                                 (case scan_chunk (lnodes s) v (nat (f_gap (fnodes s ! nx) - 1))
                                         (Some c) e of
                                    NotFound \<Rightarrow> Some (Inr False, s)
                                  | Crash \<Rightarrow> Some (Inl AttributeError, s)
                                  | Found n \<Rightarrow>
                                      removed_true (remove_node_and_update n f s)))))))"

text \<open>The two-ended loop of \<open>remove\<close>.\<close>

partial_function (option) remove_loop ::
  "pyval \<Rightarrow> fref option \<Rightarrow> fref option \<Rightarrow> int \<Rightarrow> int \<Rightarrow> SkipList
     \<Rightarrow> ((error + bool) \<times> SkipList) option" where
  "remove_loop v front_fast back_fast front_idx back_idx s =
     (case front_fast of
        None \<Rightarrow> Some (Inr False, s)
      | Some ff \<Rightarrow>
          (case back_fast of
             None \<Rightarrow> Some (Inr False, s)
           | Some bf \<Rightarrow>
               if f_next (fnodes s ! ff) = None \<or> f_prev (fnodes s ! bf) = None
                  \<or> \<not> front_idx < back_idx
               then Some (Inr False, s)
               else
                 (case search_chunk (Some ff) v s of
                    None \<Rightarrow> None
                  | Some (r1, s1) \<Rightarrow>
                      if r1 \<noteq> Inr False then Some (r1, s1)
                      else
                        (case f_next (fnodes s1 ! ff) of
                           None \<Rightarrow> Some (Inl AttributeError, s1)
                         | Some fnx \<Rightarrow>
                             let front_idx1 = front_idx + f_gap (fnodes s1 ! fnx)
                             in if front_idx1 < back_idx
                                then
                                  (case search_chunk (f_prev (fnodes s1 ! bf)) v s1 of
                                     None \<Rightarrow> None
                                   | Some (r2, s2) \<Rightarrow>
                                       if r2 \<noteq> Inr False then Some (r2, s2)
                                       else
                                         remove_loop v (Some fnx) (f_prev (fnodes s2 ! bf))
                                           front_idx1 (back_idx - f_gap (fnodes s2 ! bf)) s2)
                                else remove_loop v (Some fnx) (Some bf) front_idx1 back_idx s1))))"

declare remove_loop.simps [code]

definition removed_at ::
  "((error + pyval) \<times> SkipList) option \<Rightarrow> ((error + bool) \<times> SkipList) option" where
  "removed_at r =
     (case r of
        None \<Rightarrow> None
      | Some (Inl e, s1) \<Rightarrow> Some (Inl e, s1)
      | Some (Inr d, s1) \<Rightarrow> Some (Inr True, s1))"

definition remove :: "pyval \<Rightarrow> SkipList \<Rightarrow> ((error + bool) \<times> SkipList) option" where
  "remove v s =
     (case head s of
        None \<Rightarrow> Some (Inr False, s)
      | Some h \<Rightarrow>
          if v = PyNone then Some (Inr False, s)
          else if l_data (lnodes s ! h) = v then removed_at (remove_at 0 s)
          else
            (case tail s of
               None \<Rightarrow> Some (Inl AttributeError, s)
             | Some t \<Rightarrow>
                 if l_data (lnodes s ! t) = v then removed_at (remove_at (size_sl s - 1) s)
                 else remove_loop v (fast_head s) (fast_tail s) 0 (size_sl s - 1) s))"

section \<open>Public API\<close>

definition len :: "SkipList \<Rightarrow> int" where
  "len s = size_sl s"

definition get :: "int \<Rightarrow> SkipList \<Rightarrow> ((error + pyval) \<times> SkipList) option" where
  "get index s =
     (case get_node index s of
        None \<Rightarrow> None
      | Some (Inl e, s1) \<Rightarrow> Some (Inl e, s1)
      | Some (Inr None, s1) \<Rightarrow> Some (Inl AttributeError, s1)
      | Some (Inr (Some n), s1) \<Rightarrow> Some (Inr (l_data (lnodes s1 ! n)), s1))"

definition clear :: "SkipList \<Rightarrow> SkipList" where
  "clear s =
     (let s1 = s\<lparr>head := None, tail := None\<rparr>;
          s2 = clear_fast_layer s1;
          s3 = s2\<lparr>size_sl := 0\<rparr>;
          s4 = s3\<lparr>pending_gap := 0\<rparr>;
          s5 = s4\<lparr>ops_since_rebalance := 0\<rparr>
      in s5\<lparr>current_skip := MIN_SKIP\<rparr>)"


section \<open>Running sequences of operations\<close>

text \<open>
  A caller's view of the container: a sequence of public calls, each answered by a return
  value or by the exception it raised. After an exception the container stays as the
  method left it, and later calls act on that state.
\<close>

datatype op = Add pyval | Insert int pyval | RemoveAt int | Remove pyval | Clear | Get int | Len

datatype reply = Returned | ReturnedVal pyval | ReturnedBool bool | ReturnedInt int | Raised error

definition reply_of :: "('a \<Rightarrow> reply) \<Rightarrow> error + 'a \<Rightarrow> reply" where
  "reply_of f r = (case r of Inl e \<Rightarrow> Raised e | Inr x \<Rightarrow> f x)"

fun step :: "op \<Rightarrow> SkipList \<Rightarrow> (reply \<times> SkipList) option" where
  "step (Add v) s = (case add v s of (r, s1) \<Rightarrow> Some (reply_of (\<lambda>u. Returned) r, s1))"
| "step (Insert i v) s =
     map_option (\<lambda>(r, s1). (reply_of (\<lambda>u. Returned) r, s1)) (insert_sl i v s)"
| "step (RemoveAt i) s = map_option (\<lambda>(r, s1). (reply_of ReturnedVal r, s1)) (remove_at i s)"
| "step (Remove v) s = map_option (\<lambda>(r, s1). (reply_of ReturnedBool r, s1)) (remove v s)"
| "step Clear s = Some (Returned, clear s)"
| "step (Get i) s = map_option (\<lambda>(r, s1). (reply_of ReturnedVal r, s1)) (get i s)"
| "step Len s = Some (ReturnedInt (len s), s)"

fun run :: "op list \<Rightarrow> SkipList \<Rightarrow> (reply list \<times> SkipList) option" where
  "run [] s = Some ([], s)"
| "run (x # xs) s =
     (case step x s of
        None \<Rightarrow> None
      | Some (r, s1) \<Rightarrow>
          (case run xs s1 of None \<Rightarrow> None | Some (rs, s2) \<Rightarrow> Some (r # rs, s2)))"

text \<open>The replies to a sequence of calls on a new container, and the container after them.\<close>

definition replies :: "op list \<Rightarrow> reply list option" where
  "replies ops = map_option fst (run ops init_sl)"

definition final :: "op list \<Rightarrow> SkipList option" where
  "final ops = map_option snd (run ops init_sl)"

text \<open>The replies that are exceptions.\<close>

fun raised :: "reply \<Rightarrow> bool" where
  "raised (Raised e) = True"
| "raised r = False"

text \<open>
  What an observer reads off a container: the values of the primary list from \<open>head\<close>
  along \<open>next\<close>, and the gaps of the anchors from the head sentinel along \<open>next\<close>. Both
  walks are bounded by the number of objects ever created, which is enough on any chain
  without a cycle.
\<close>

fun values_from :: "ListNode list \<Rightarrow> nat \<Rightarrow> lref option \<Rightarrow> pyval list" where
  "values_from ls 0 cur = []"
| "values_from ls (Suc k) cur =
     (case cur of None \<Rightarrow> [] | Some c \<Rightarrow> l_data (ls ! c) # values_from ls k (l_next (ls ! c)))"

definition elements :: "SkipList \<Rightarrow> pyval list" where
  "elements s = values_from (lnodes s) (length (lnodes s)) (head s)"

fun gaps_from :: "FastNode list \<Rightarrow> nat \<Rightarrow> fref option \<Rightarrow> int list" where
  "gaps_from fs 0 cur = []"
| "gaps_from fs (Suc k) cur =
     (case cur of None \<Rightarrow> [] | Some c \<Rightarrow> f_gap (fs ! c) # gaps_from fs k (f_next (fs ! c)))"

definition anchor_gaps :: "SkipList \<Rightarrow> int list" where
  "anchor_gaps s = gaps_from (fnodes s) (length (fnodes s)) (fast_head s)"

definition gap_sum :: "SkipList \<Rightarrow> int" where
  "gap_sum s = sum_list (anchor_gaps s)"

subsection \<open>The reference sequence\<close>

text \<open>
  The oracle of the specification's first testable property: a plain list that receives
  the same calls. \<open>remove\<close> deletes the first occurrence of a value other than \<open>None\<close>.
\<close>

fun ref_step :: "op \<Rightarrow> pyval list \<Rightarrow> reply \<times> pyval list" where
  "ref_step (Add v) xs = (Returned, xs @ [v])"
| "ref_step (Insert i v) xs =
     (if i < 0 \<or> i > int (length xs) then (Raised IndexError, xs)
      else (Returned, take (nat i) xs @ v # drop (nat i) xs))"
| "ref_step (RemoveAt i) xs =
     (if i < 0 \<or> i \<ge> int (length xs) then (Raised IndexError, xs)
      else (ReturnedVal (xs ! nat i), take (nat i) xs @ drop (Suc (nat i)) xs))"
| "ref_step (Remove v) xs =
     (if v \<noteq> PyNone \<and> List.member xs v then (ReturnedBool True, remove1 v xs)
      else (ReturnedBool False, xs))"
| "ref_step Clear xs = (Returned, [])"
| "ref_step (Get i) xs =
     (if i < 0 \<or> i \<ge> int (length xs) then (Raised IndexError, xs)
      else (ReturnedVal (xs ! nat i), xs))"
| "ref_step Len xs = (ReturnedInt (int (length xs)), xs)"

fun ref_run :: "op list \<Rightarrow> pyval list \<Rightarrow> reply list \<times> pyval list" where
  "ref_run [] xs = ([], xs)"
| "ref_run (x # ys) xs =
     (case ref_step x xs of (r, xs1) \<Rightarrow> (case ref_run ys xs1 of (rs, xs2) \<Rightarrow> (r # rs, xs2)))"

subsection \<open>Notions used by the statements below\<close>

text \<open>A read leaves \<open>s\<close> as \<open>s'\<close>: every field but \<open>current_skip\<close> is the same.\<close>

definition same_but_skip :: "SkipList \<Rightarrow> SkipList \<Rightarrow> bool" where
  "same_but_skip s s' =
     (lnodes s' = lnodes s \<and> fnodes s' = fnodes s \<and> head s' = head s \<and> tail s' = tail s
      \<and> size_sl s' = size_sl s \<and> fast_head s' = fast_head s \<and> fast_tail s' = fast_tail s
      \<and> fast_count s' = fast_count s \<and> pending_gap s' = pending_gap s
      \<and> ops_since_rebalance s' = ops_since_rebalance s)"

text \<open>
  The skip distance \<open>add\<close> compares \<open>pending_gap\<close> with: \<open>_get_dynamic_skip()\<close> called
  once the size has been incremented.
\<close>

definition grown_skip :: "SkipList \<Rightarrow> int" where
  "grown_skip s = fst (get_dynamic_skip (s\<lparr>size_sl := size_sl s + 1\<rparr>))"

text \<open>
  The container on which \<open>add\<close> calls \<open>_init_fast_layer\<close>: the empty container with the
  new node installed as head and tail and the size set to one.
\<close>

definition first_node_state :: "pyval \<Rightarrow> SkipList" where
  "first_node_state v =
     (snd (new_ListNode v init_sl))\<lparr>head := Some 0, tail := Some 0, size_sl := 1\<rparr>"

text \<open>
  What the counters promise: the size is not negative, there are no anchors on size 0 and at
  least two otherwise, both sentinels exist exactly when anchors are counted, head and tail
  exist together, and a container without a head has size 0 and no head sentinel.
\<close>

definition count_inv :: "SkipList \<Rightarrow> bool" where
  "count_inv s =
     (0 \<le> size_sl s \<and> (size_sl s = 0 \<longrightarrow> fast_count s = 0)
      \<and> (1 \<le> size_sl s \<longrightarrow> 2 \<le> fast_count s)
      \<and> (head s = None \<longleftrightarrow> tail s = None)
      \<and> (head s = None \<longrightarrow> size_sl s = 0 \<and> fast_head s = None)
      \<and> (fast_count s = 0 \<longleftrightarrow> fast_tail s = None)
      \<and> (fast_head s = None \<longleftrightarrow> fast_tail s = None))"

text \<open>The replies that no caller expects: a dereferenced \<open>None\<close>, a type error.\<close>

fun crashed :: "reply \<Rightarrow> bool" where
  "crashed (Raised AttributeError) = True"
| "crashed (Raised TypeError) = True"
| "crashed r = False"

text \<open>Two containers with the same entry points and size; the stores may differ.\<close>

definition same_roots :: "SkipList \<Rightarrow> SkipList \<Rightarrow> bool" where
  "same_roots s s' =
     (head s' = head s \<and> tail s' = tail s \<and> size_sl s' = size_sl s
      \<and> fast_head s' = fast_head s \<and> fast_tail s' = fast_tail s)"

text \<open>Chains of anchors that end: \<open>k\<close> steps along \<open>next\<close> (or \<open>prev\<close>) reach \<open>None\<close>.\<close>

fun next_chain_ends :: "FastNode list \<Rightarrow> nat \<Rightarrow> fref option \<Rightarrow> bool" where
  "next_chain_ends fs 0 cur = (cur = None)"
| "next_chain_ends fs (Suc k) cur =
     (case cur of None \<Rightarrow> True | Some c \<Rightarrow> next_chain_ends fs k (f_next (fs ! c)))"

fun prev_chain_ends :: "FastNode list \<Rightarrow> nat \<Rightarrow> fref option \<Rightarrow> bool" where
  "prev_chain_ends fs 0 cur = (cur = None)"
| "prev_chain_ends fs (Suc k) cur =
     (case cur of None \<Rightarrow> True | Some c \<Rightarrow> prev_chain_ends fs k (f_prev (fs ! c)))"

section \<open>Properties\<close>

subsection \<open>Facts shared by the proofs\<close>

lemmas store_defs =
  set_l_prev_def set_l_next_def set_l_fast_def set_f_target_def set_f_prev_def
  set_f_next_def set_f_gap_def new_ListNode_def new_FastNode_def

lemma get_dynamic_skip_frame: "same_but_skip s (snd (get_dynamic_skip s))"
  by (simp add: get_dynamic_skip_def same_but_skip_def Let_def)

lemma same_but_skip_refl: "same_but_skip s s"
  by (simp add: same_but_skip_def)

lemma get_dynamic_skip_fields:
  "lnodes (snd (get_dynamic_skip s)) = lnodes s"
  "fnodes (snd (get_dynamic_skip s)) = fnodes s"
  "head (snd (get_dynamic_skip s)) = head s"
  "tail (snd (get_dynamic_skip s)) = tail s"
  "size_sl (snd (get_dynamic_skip s)) = size_sl s"
  "fast_head (snd (get_dynamic_skip s)) = fast_head s"
  "fast_tail (snd (get_dynamic_skip s)) = fast_tail s"
  "fast_count (snd (get_dynamic_skip s)) = fast_count s"
  "pending_gap (snd (get_dynamic_skip s)) = pending_gap s"
  "ops_since_rebalance (snd (get_dynamic_skip s)) = ops_since_rebalance s"
  by (simp_all add: get_dynamic_skip_def Let_def)

lemma get_dynamic_skip_fst_cong:
  "size_sl s1 = size_sl s2 \<Longrightarrow> current_skip s1 = current_skip s2
     \<Longrightarrow> fst (get_dynamic_skip s1) = fst (get_dynamic_skip s2)"
  by (simp add: get_dynamic_skip_def Let_def)

lemma get_node_state:
  "get_node i s = Some (r, s') \<Longrightarrow> s' = s \<or> s' = snd (get_dynamic_skip s)"
  unfolding get_node_def
  by (auto simp: Let_def split: if_splits prod.splits option.splits walk.splits)

lemma get_state:
  "get i s = Some (r, s') \<Longrightarrow> s' = s \<or> s' = snd (get_dynamic_skip s)"
  unfolding get_def
  by (auto split: option.splits prod.splits sum.splits dest: get_node_state)

text \<open>The anchor walks of \<open>get_node\<close> return on every chain that ends.\<close>

lemma forward_anchors_returns:
  "next_chain_ends (fnodes s) k fast \<Longrightarrow> forward_anchors s i fast cur walked \<noteq> None"
proof (induction k arbitrary: fast cur walked)
  case 0
  then show ?case by (simp add: forward_anchors.simps)
next
  case (Suc k)
  show ?case
  proof (cases fast)
    case None
    then show ?thesis by (simp add: forward_anchors.simps)
  next
    case (Some f)
    with Suc.prems have ends: "next_chain_ends (fnodes s) k (f_next (fnodes s ! f))" by simp
    show ?thesis
    proof (cases "f_next (fnodes s ! f)")
      case None
      with Some show ?thesis by (simp add: forward_anchors.simps)
    next
      case nx: (Some nx)
      from Suc.IH [of "Some nx"] ends nx
      have "\<And>c w. forward_anchors s i (Some nx) c w \<noteq> None" by simp
      with Some nx show ?thesis
        by (subst forward_anchors.simps) (simp split: option.splits)
    qed
  qed
qed

lemma backward_anchors_returns:
  "prev_chain_ends (fnodes s) k fast \<Longrightarrow> backward_anchors s i fast cur walked \<noteq> None"
proof (induction k arbitrary: fast cur walked)
  case 0
  then show ?case by (simp add: backward_anchors.simps)
next
  case (Suc k)
  show ?case
  proof (cases fast)
    case None
    then show ?thesis by (simp add: backward_anchors.simps)
  next
    case (Some f)
    with Suc.prems have ends: "prev_chain_ends (fnodes s) k (f_prev (fnodes s ! f))" by simp
    show ?thesis
    proof (cases "f_prev (fnodes s ! f)")
      case None
      with Some show ?thesis by (simp add: backward_anchors.simps)
    next
      case pv: (Some pv)
      from Suc.IH [of "Some pv"] ends pv
      have "\<And>c w. backward_anchors s i (Some pv) c w \<noteq> None" by simp
      with Some pv show ?thesis
        by (subst backward_anchors.simps) (simp split: option.splits)
    qed
  qed
qed

lemma get_node_returns:
  assumes "next_chain_ends (fnodes s) k (fast_head s)"
    and "prev_chain_ends (fnodes s) m (fast_tail s)"
  shows "get_node i s \<noteq> None"
proof -
  let ?s1 = "snd (get_dynamic_skip s)"
  have f: "forward_anchors ?s1 i (fast_head ?s1) c w \<noteq> None" for c w
    using assms(1) by (intro forward_anchors_returns [where k = k]) (simp add: get_dynamic_skip_fields)
  have b: "backward_anchors ?s1 i (fast_tail ?s1) c w \<noteq> None" for c w
    using assms(2) by (intro backward_anchors_returns [where k = m]) (simp add: get_dynamic_skip_fields)
  show ?thesis
    unfolding get_node_def
    using f [of "head ?s1" 0] b [of "tail ?s1" "size_sl ?s1 - 1"]
    by (auto simp: Let_def split_beta split: option.splits walk.splits)
qed


subsection \<open>clear\<close>

text \<open>
  Claim C8. For every container state, calling \<open>clear()\<close> twice in a row leaves the container
  in the same state as calling it once: size 0, no head or tail, no fast lane (no sentinels,
  \<open>fast_count\<close> 0), \<open>pending_gap\<close> 0, \<open>ops_since_rebalance\<close> 0 and the skip distance at
  \<open>MIN_SKIP\<close>. The objects created before stay in the stores, unreferenced.
\<close>

theorem c8_clear_idempotent:
  "clear (clear s) = clear s
   \<and> size_sl (clear s) = 0 \<and> head (clear s) = None \<and> tail (clear s) = None
   \<and> fast_head (clear s) = None \<and> fast_tail (clear s) = None \<and> fast_count (clear s) = 0
   \<and> pending_gap (clear s) = 0 \<and> ops_since_rebalance (clear s) = 0
   \<and> current_skip (clear s) = MIN_SKIP"
  by (simp add: clear_def clear_fast_layer_def)

subsection \<open>remove(None)\<close>

text \<open>
  Claim C9. For every container state, \<open>remove(None)\<close> returns \<open>False\<close> and leaves the
  container as it is, whatever the list holds: the test \<open>value is None\<close> comes before any
  comparison with the stored data, so a stored \<open>None\<close> is never found by value.
\<close>

theorem c9_remove_none: "remove PyNone s = Some (Inr False, s)"
  by (simp add: remove_def split: option.splits)

text \<open>An instance with \<open>None\<close> stored: it is still in the list after \<open>remove(None)\<close>.\<close>

lemma remove_none_stored:
  "map_option (\<lambda>(rs, s). (rs, elements s, size_sl s))
     (run [Add (PyInt 1), Add PyNone, Add (PyInt 2), Remove PyNone] init_sl)
   = Some ([Returned, Returned, Returned, ReturnedBool False],
           [PyInt 1, PyNone, PyInt 2], 3)"
  by code_simp

subsection \<open>Reads\<close>

text \<open>
  Claim C10. A call of \<open>get_node(i)\<close> or \<open>get(i)\<close> that returns, with a node, a value or an
  exception, leaves the size, both stores (hence the values of the primary list, the anchor
  chain and every gap), \<open>head\<close>, \<open>tail\<close>, the sentinels, \<open>fast_count\<close>, \<open>pending_gap\<close> and
  \<open>ops_since_rebalance\<close> unchanged. The container afterwards is either the one before or
  the one \<open>_get_dynamic_skip()\<close> leaves, which differs in \<open>current_skip\<close> only. This holds
  for every index, so in particular for every valid one.
\<close>

theorem c10_reads_keep_state:
  "(get_node i s = Some (rn, sn)
      \<longrightarrow> same_but_skip s sn \<and> (sn = s \<or> sn = snd (get_dynamic_skip s)))
   \<and> (get i s = Some (rg, sg)
      \<longrightarrow> same_but_skip s sg \<and> (sg = s \<or> sg = snd (get_dynamic_skip s)))"
  using get_node_state [of i s rn sn] get_state [of i s rg sg]
  by (auto simp: same_but_skip_refl get_dynamic_skip_frame)

text \<open>
  The witness: 49 appends and the removal of the head, then \<open>get(5)\<close> on the 48 elements
  left. The read goes through the fast lane, returns the sixth value and lowers
  \<open>current_skip\<close> from 7 to 6; nothing else changes.
\<close>

theorem c10_reads_keep_state_witness:
  "(case final (map (\<lambda>i. Add (PyInt i)) [0..48] @ [RemoveAt 0]) of
      None \<Rightarrow> False
    | Some s \<Rightarrow>
        (case get 5 s of
           None \<Rightarrow> False
         | Some (r, s') \<Rightarrow>
             0 \<le> (5::int) \<and> 5 < size_sl s \<and> r = Inr (PyInt 6)
             \<and> current_skip s = 7 \<and> current_skip s' = 6 \<and> same_but_skip s s'))"
proof -
  have ev:
    "(case final (map (\<lambda>i. Add (PyInt i)) [0..48] @ [RemoveAt 0]) of
        None \<Rightarrow> False
      | Some s \<Rightarrow>
          (case get 5 s of
             None \<Rightarrow> False
           | Some (r, s') \<Rightarrow>
               0 \<le> (5::int) \<and> 5 < size_sl s \<and> r = Inr (PyInt 6)
               \<and> current_skip s = 7 \<and> current_skip s' = 6))"
    by code_simp
  then obtain s r s' where s: "final (map (\<lambda>i. Add (PyInt i)) [0..48] @ [RemoveAt 0]) = Some s"
    and g: "get 5 s = Some (r, s')"
    and rest: "0 \<le> (5::int) \<and> 5 < size_sl s \<and> r = Inr (PyInt 6)
               \<and> current_skip s = 7 \<and> current_skip s' = 6"
    by (auto split: option.splits)
  from c10_reads_keep_state [of 5 s "Inr None" s r s'] g
  have "same_but_skip s s'" by simp
  with s g rest show ?thesis by simp
qed

subsection \<open>Initialising the fast lane\<close>

text \<open>
  Claim C4 as stated: whenever the fast lane is initialised, the tail sentinel's gap is
  \<open>max(1, size - 1)\<close>. It fails where \<open>add\<close> initialises the fast lane of a list that just
  received its first element: the tail sentinel, object 1 of the anchor store, has gap 0,
  and \<open>max(1, size - 1)\<close> is 1.
\<close>

theorem c4_counterexample:
  "fast_tail (init_fast_layer (first_node_state (PyInt 0))) = Some 1
   \<and> f_gap (fnodes (init_fast_layer (first_node_state (PyInt 0))) ! 1) = 0
   \<and> max 1 (size_sl (first_node_state (PyInt 0)) - 1) = 1
   \<and> snd (add (PyInt 0) init_sl)
       = (init_fast_layer (first_node_state (PyInt 0)))\<lparr>pending_gap := 0\<rparr>"
  by (simp add: first_node_state_def init_fast_layer_def update_tail_fast_def
      clear_fast_layer_def add_def store_defs init_sl_def Let_def)

text \<open>
  Claim C4, amended. When \<open>_init_fast_layer\<close> runs on a list that has a head and a tail and
  no fast lane yet, it creates two anchors: the head sentinel, with the head as target and gap
  0, and the tail sentinel, with the tail as target, linked to each other and to nothing
  else, and sets \<open>fast_count\<close> to 2. The tail sentinel's gap is 0 when the list is a
  single node (head and tail are the same object) and \<open>max(1, size - 1)\<close> otherwise. The
  tail node refers back to the tail sentinel, and a head that is not the tail refers back to
  the head sentinel.
\<close>

theorem c4_init_fast_layer:
  assumes "head s = Some h" and "tail s = Some t" and "fast_head s = None"
    and "h < length (lnodes s)" and "t < length (lnodes s)"
  shows "fast_head (init_fast_layer s) = Some (length (fnodes s))
    \<and> fast_tail (init_fast_layer s) = Some (Suc (length (fnodes s)))
    \<and> fast_count (init_fast_layer s) = 2
    \<and> fnodes (init_fast_layer s) ! length (fnodes s) =
        \<lparr>f_target = Some h, f_prev = None, f_next = Some (Suc (length (fnodes s))), f_gap = 0\<rparr>
    \<and> fnodes (init_fast_layer s) ! Suc (length (fnodes s)) =
        \<lparr>f_target = Some t, f_prev = Some (length (fnodes s)), f_next = None,
         f_gap = (if h = t then 0 else max 1 (size_sl s - 1))\<rparr>
    \<and> l_fast (lnodes (init_fast_layer s) ! t) = Some (Suc (length (fnodes s)))
    \<and> (h \<noteq> t \<longrightarrow> l_fast (lnodes (init_fast_layer s) ! h) = Some (length (fnodes s)))"
  using assms
  by (simp add: init_fast_layer_def update_tail_fast_def clear_fast_layer_def store_defs Let_def
      nth_append nth_list_update split: prod.splits)

theorem c4_init_fast_layer_witness:
  "head (first_node_state (PyInt 0)) = Some 0 \<and> tail (first_node_state (PyInt 0)) = Some 0
   \<and> fast_head (first_node_state (PyInt 0)) = None
   \<and> 0 < length (lnodes (first_node_state (PyInt 0)))
   \<and> fast_head (init_fast_layer (first_node_state (PyInt 0))) = Some 0
   \<and> fast_tail (init_fast_layer (first_node_state (PyInt 0))) = Some 1
   \<and> fast_count (init_fast_layer (first_node_state (PyInt 0))) = 2
   \<and> fnodes (init_fast_layer (first_node_state (PyInt 0))) ! 1 =
        \<lparr>f_target = Some 0, f_prev = Some 0, f_next = None, f_gap = 0\<rparr>"
proof -
  have h: "head (first_node_state (PyInt 0)) = Some 0"
    and t: "tail (first_node_state (PyInt 0)) = Some 0"
    and f: "fast_head (first_node_state (PyInt 0)) = None"
    and l: "0 < length (lnodes (first_node_state (PyInt 0)))"
    and n: "length (fnodes (first_node_state (PyInt 0))) = 0"
    by (simp_all add: first_node_state_def new_ListNode_def init_sl_def)
  from c4_init_fast_layer [OF h t f l l] h t f l n show ?thesis by simp
qed

subsection \<open>add\<close>

text \<open>
  On a list with a head, a tail and a tail sentinel that has a predecessor in the anchor
  chain, \<open>add(value)\<close> returns normally and
  \<^item> appends a new node holding the value after the old tail and makes it the tail, the
    size growing by one;
  \<^item> re-points the tail sentinel to the new node;
  \<^item> increments \<open>pending_gap\<close>; when the incremented value reaches the skip distance
    \<open>_get_dynamic_skip()\<close> returns for the grown list, the old tail, now the node before
    the new tail, becomes the target of a new anchor placed just before the tail sentinel,
    with gap \<open>pending_gap - 1\<close> (the value of \<open>pending_gap\<close> before the call), and both
    the tail sentinel's gap and \<open>pending_gap\<close> are reset to 1; otherwise the tail
    sentinel's gap is set to the incremented \<open>pending_gap\<close> and no anchor is created.
\<close>

lemma add_with_sentinels:
  assumes "head s = Some h" and "tail s = Some t" and "fast_tail s = Some ft"
    and "f_prev (fnodes s ! ft) = Some p"
    and "t < length (lnodes s)" and "ft < length (fnodes s)" and "p < length (fnodes s)"
  shows "fst (add v s) = Inr ()
    \<and> lnodes (snd (add v s)) ! length (lnodes s) =
         \<lparr>l_data = v, l_prev = Some t, l_next = None, l_fast = Some ft\<rparr>
    \<and> l_next (lnodes (snd (add v s)) ! t) = Some (length (lnodes s))
    \<and> tail (snd (add v s)) = Some (length (lnodes s))
    \<and> head (snd (add v s)) = Some h
    \<and> size_sl (snd (add v s)) = size_sl s + 1
    \<and> f_target (fnodes (snd (add v s)) ! ft) = Some (length (lnodes s))
    \<and> (if pending_gap s + 1 \<ge> grown_skip s
        then fnodes (snd (add v s)) ! length (fnodes s) =
               \<lparr>f_target = Some t, f_prev = Some p, f_next = Some ft, f_gap = pending_gap s\<rparr>
           \<and> f_next (fnodes (snd (add v s)) ! p) = Some (length (fnodes s))
           \<and> f_prev (fnodes (snd (add v s)) ! ft) = Some (length (fnodes s))
           \<and> l_fast (lnodes (snd (add v s)) ! t) = Some (length (fnodes s))
           \<and> fast_count (snd (add v s)) = fast_count s + 1
           \<and> f_gap (fnodes (snd (add v s)) ! ft) = 1
           \<and> pending_gap (snd (add v s)) = 1
        else f_gap (fnodes (snd (add v s)) ! ft) = pending_gap s + 1
           \<and> pending_gap (snd (add v s)) = pending_gap s + 1
           \<and> length (fnodes (snd (add v s))) = length (fnodes s)
           \<and> fast_count (snd (add v s)) = fast_count s)"
proof -
  let ?n = "length (lnodes s)"
  let ?s1 = "snd (new_ListNode v s)"
  let ?s7 = "(update_tail_fast
       ((set_l_next t (Some ?n) (set_l_prev ?n (tail ?s1) ?s1))
          \<lparr>tail := Some ?n, size_sl := size_sl s + 1\<rparr>))\<lparr>pending_gap := pending_gap s + 1\<rparr>"
  have sk: "fst (get_dynamic_skip ?s7) = grown_skip s"
    unfolding grown_skip_def using assms
    by (intro get_dynamic_skip_fst_cong) (simp_all add: update_tail_fast_def store_defs Let_def)
  show ?thesis
    using assms sk
    by (simp add: add_def Let_def split_beta get_dynamic_skip_fields store_defs
        update_tail_fast_def append_fast_def nth_append nth_list_update)
qed

text \<open>
  An instance: after 25 appends \<open>pending_gap\<close> is 24, so the 26th reaches the skip distance
  25 and promotes the old tail, node 24, to an anchor with gap 24.
\<close>

lemma add_with_sentinels_promotes:
  "(case final (map (\<lambda>i. Add (PyInt i)) [0..24]) of
      None \<Rightarrow> False
    | Some s \<Rightarrow>
        head s = Some 0 \<and> tail s = Some 24 \<and> fast_tail s = Some 1
        \<and> f_prev (fnodes s ! 1) = Some 0 \<and> length (lnodes s) = 25 \<and> length (fnodes s) = 2
        \<and> pending_gap s = 24 \<and> grown_skip s = 25 \<and> fast_count s = 2
        \<and> fst (add (PyInt 25) s) = Inr ()
        \<and> tail (snd (add (PyInt 25) s)) = Some 25
        \<and> fnodes (snd (add (PyInt 25) s)) ! 2 =
             \<lparr>f_target = Some 24, f_prev = Some 0, f_next = Some 1, f_gap = 24\<rparr>
        \<and> f_gap (fnodes (snd (add (PyInt 25) s)) ! 1) = 1
        \<and> pending_gap (snd (add (PyInt 25) s)) = 1
        \<and> fast_count (snd (add (PyInt 25) s)) = 3)"
proof -
  have ev:
    "(case final (map (\<lambda>i. Add (PyInt i)) [0..24]) of
        None \<Rightarrow> False
      | Some s \<Rightarrow>
          head s = Some 0 \<and> tail s = Some 24 \<and> fast_tail s = Some 1
          \<and> f_prev (fnodes s ! 1) = Some 0 \<and> length (lnodes s) = 25 \<and> length (fnodes s) = 2
          \<and> pending_gap s = 24 \<and> grown_skip s = 25 \<and> fast_count s = 2)"
    by code_simp
  then obtain s where s: "final (map (\<lambda>i. Add (PyInt i)) [0..24]) = Some s"
    and h: "head s = Some 0" and t: "tail s = Some 24" and ft: "fast_tail s = Some 1"
    and p: "f_prev (fnodes s ! 1) = Some 0"
    and ll: "length (lnodes s) = 25" and lf: "length (fnodes s) = 2"
    and rest: "pending_gap s = 24" "grown_skip s = 25" "fast_count s = 2"
    by (auto split: option.splits)
  have v: "24 < length (lnodes s)" "1 < length (fnodes s)" "0 < length (fnodes s)"
    using ll lf by simp_all
  from add_with_sentinels [OF h t ft p v, of "PyInt 25"] s h t ft p ll lf rest
  show ?thesis by simp
qed


subsection \<open>The container against the reference sequence\<close>

text \<open>
  Claim C1. For every sequence of \<open>add\<close>, \<open>insert\<close>, \<open>remove_at\<close>, \<open>remove\<close> and \<open>clear\<close>
  calls on a new container, after each call \<open>len()\<close> is the number of live elements and
  \<open>get(i)\<close> returns, for every valid \<open>i\<close>, what the reference sequence holds at \<open>i\<close>.

  The code breaks it. After \<open>add(0)\<close>, ..., \<open>add(25)\<close> the 26th append has promoted node 24
  to an anchor with gap 24, and the tail sentinel has gap 1. \<open>insert(24, 99)\<close> then looks
  for the anchor to adjust with \<open>traversed + gap > index\<close>: the anchor at position 24 is
  passed over and the tail sentinel's gap becomes 2, although the anchor's target has moved
  to position 25. No call raises, the primary list is right, and \<open>get(24)\<close>, walking back
  from the tail over the anchor, returns 24 where the list and the reference hold 99.
\<close>

theorem c1_get_differs_from_reference:
  "map_option (\<lambda>(rs, s). (filter raised rs, last rs, size_sl s, anchor_gaps s, elements s))
     (run (map (\<lambda>i. Add (PyInt i)) [0..25] @ [Insert 24 (PyInt 99), Get 24]) init_sl)
   = Some ([], ReturnedVal (PyInt 24), 27, [0, 24, 2],
           map PyInt [0, 1, 2, 3, 4, 5, 6, 7, 8, 9, 10, 11, 12, 13, 14, 15, 16, 17, 18, 19,
                      20, 21, 22, 23, 99, 24, 25])
   \<and> (case ref_run (map (\<lambda>i. Add (PyInt i)) [0..25] @ [Insert 24 (PyInt 99), Get 24]) [] of
        (rs, xs) \<Rightarrow> (last rs, xs))
     = (ReturnedVal (PyInt 99),
        map PyInt [0, 1, 2, 3, 4, 5, 6, 7, 8, 9, 10, 11, 12, 13, 14, 15, 16, 17, 18, 19,
                   20, 21, 22, 23, 99, 24, 25])"
  by code_simp

text \<open>
  A shorter run that leaves the reference: after \<open>add(0)\<close>, \<open>add(1)\<close>, \<open>insert(1, 9)\<close>,
  \<open>add(2)\<close> the tail sentinel's gap is 2 on a list of four, so the chunk scan of
  \<open>remove(1)\<close> stops before the third node and answers \<open>False\<close> for a value that is
  there; the reference removes it.
\<close>

lemma remove_misses_present_value:
  "map_option (\<lambda>(rs, s). (last rs, size_sl s, elements s))
     (run [Add (PyInt 0), Add (PyInt 1), Insert 1 (PyInt 9), Add (PyInt 2), Remove (PyInt 1)]
        init_sl)
   = Some (ReturnedBool False, 4, [PyInt 0, PyInt 9, PyInt 1, PyInt 2])
   \<and> (case ref_run [Add (PyInt 0), Add (PyInt 1), Insert 1 (PyInt 9), Add (PyInt 2),
                      Remove (PyInt 1)] [] of
        (rs, xs) \<Rightarrow> (last rs, xs))
     = (ReturnedBool True, [PyInt 0, PyInt 9, PyInt 2])"
  by code_simp

subsection \<open>The sum of the gaps\<close>

text \<open>
  Claim C2. After every public operation, whenever \<open>size \<ge> 1\<close>, the gaps of the anchors
  from the head sentinel to the tail sentinel add up to \<open>size - 1\<close>.

  The code breaks it. After \<open>add(0)\<close>, \<open>add(1)\<close> the gaps are 0 and 1. \<open>insert(1, 9)\<close>
  looks for the anchor to adjust with \<open>traversed + fast.next.gap > index\<close>; the only
  anchor after the head sentinel is the tail sentinel, and \<open>0 + 1 > 1\<close> fails, so no gap
  grows while the size does. \<open>add(2)\<close> then sets the tail sentinel's gap to \<open>pending_gap\<close>,
  which is 2: all four calls return normally, the size is 4 and the gaps are 0 and 2.
\<close>

theorem c2_gap_sum_after_add:
  "map_option (\<lambda>(rs, s). (rs, size_sl s, anchor_gaps s, gap_sum s))
     (run [Add (PyInt 0), Add (PyInt 1), Insert 1 (PyInt 9), Add (PyInt 2)] init_sl)
   = Some ([Returned, Returned, Returned, Returned], 4, [0, 2], 2)"
  by code_simp

text \<open>
  The sum is already lost after the \<open>insert\<close> of that run. Where \<open>insert\<close> does find the
  tail sentinel and adds one to its gap, it leaves \<open>pending_gap\<close> alone, and the next \<open>add\<close>
  overwrites the gap with \<open>pending_gap\<close>.
\<close>

lemma gap_sum_after_insert:
  "map_option (\<lambda>(rs, s). (rs, size_sl s, anchor_gaps s, gap_sum s))
     (run [Add (PyInt 0), Add (PyInt 1), Insert 1 (PyInt 9)] init_sl)
   = Some ([Returned, Returned, Returned], 3, [0, 1], 1)"
  by code_simp

lemma gap_sum_after_insert_then_add:
  "map_option (\<lambda>(rs, s). (size_sl s, anchor_gaps s, pending_gap s))
     (run [Add (PyInt 0), Add (PyInt 1), Add (PyInt 2), Insert 1 (PyInt 9)] init_sl)
   = Some (4, [0, 3], 2)
   \<and> map_option (\<lambda>(rs, s). (rs, size_sl s, anchor_gaps s, gap_sum s))
     (run [Add (PyInt 0), Add (PyInt 1), Add (PyInt 2), Insert 1 (PyInt 9), Add (PyInt 3)]
        init_sl)
   = Some ([Returned, Returned, Returned, Returned, Returned], 5, [0, 3], 3)"
  by code_simp

text \<open>
  Two more ways the sum is lost. \<open>remove(value)\<close> finds a node whose back-reference still
  names the tail sentinel (every node has been the tail once), calls \<open>_remove_fast\<close> on
  the sentinel, which does nothing, and skips the decrement that \<open>remove_at\<close> makes in this
  case. \<open>remove_at\<close> on an anchor's target folds the anchor's gap into the next anchor
  twice, once itself and once in \<open>_remove_fast\<close>.
\<close>

lemma gap_sum_after_remove:
  "map_option (\<lambda>(rs, s). (rs, size_sl s, anchor_gaps s, gap_sum s))
     (run [Add (PyInt 0), Add (PyInt 1), Add (PyInt 2), Remove (PyInt 1)] init_sl)
   = Some ([Returned, Returned, Returned, ReturnedBool True], 2, [0, 2], 2)"
  by code_simp

lemma gap_sum_after_remove_at:
  "map_option (\<lambda>(rs, s). (filter raised rs, last rs, size_sl s, anchor_gaps s, gap_sum s))
     (run (map (\<lambda>i. Add (PyInt i)) [0..25] @ [RemoveAt 24]) init_sl)
   = Some ([], ReturnedVal (PyInt 24), 25, [0, 48], 48)"
  by code_simp

subsection \<open>Errors a caller sees\<close>

text \<open>
  Claim C3. Every public operation, on every reachable container and argument, either
  returns or raises the index error; no other exception reaches the caller.

  The code breaks it. After \<open>add(0)\<close>, 26 times \<open>insert(0, 7)\<close> and 25 times \<open>add(1)\<close>, all
  returning normally, the list has 52 elements. The inserts at the head never touched
  \<open>pending_gap\<close>, so the 25th of the later appends promotes the node at position 50 to an
  anchor with gap 24. For the valid index 26, \<open>get_node\<close> jumps to that anchor believing it
  at position 24, steps two nodes on and runs off the list: it returns \<open>None\<close>. Then
  \<open>get(26)\<close> raises \<open>AttributeError\<close> on \<open>None.data\<close>, and \<open>insert(26, 5)\<close> and
  \<open>remove_at(26)\<close> raise \<open>ValueError\<close>.
\<close>

theorem c3_other_errors_surface:
  "map_option
     (\<lambda>(rs, s). (filter raised rs, size_sl s, anchor_gaps s, map_option fst (get 26 s),
        map_option fst (get_node 26 s), map_option fst (insert_sl 26 (PyInt 5) s),
        map_option fst (remove_at 26 s)))
     (run (Add (PyInt 0) # replicate 26 (Insert 0 (PyInt 7)) @ replicate 25 (Add (PyInt 1)))
        init_sl)
   = Some ([], 52, [0, 24, 1], Some (Inl AttributeError), Some (Inr None),
           Some (Inl ValueError), Some (Inl ValueError))"
  by code_simp

subsection \<open>Removing a value that is not in the list\<close>

text \<open>
  Claim C6. For every list state and every value not present in the list, \<open>remove(value)\<close>
  returns \<open>False\<close> and leaves the size and the sequence of values unchanged.

  The code breaks it. After \<open>add(0)\<close>, ..., \<open>add(27)\<close> node 24 is an anchor's target.
  \<open>remove_at(0)\<close>, 25 times, removes the nodes 0 to 24; the head case re-points the head
  sentinel and never removes the anchor, which keeps node 24 as its target. The list is now
  25, 26, 27 and no call has raised. \<open>remove(24)\<close> reaches the anchor from the back, finds
  24 in its target, unlinks that node again and subtracts one from the size: it returns
  \<open>True\<close> for a value that is not there, and the size is 2 on a list of three.
\<close>

theorem c6_remove_absent_value:
  "map_option
     (\<lambda>(rs, s). (filter raised rs, size_sl s, elements s,
        map_option (\<lambda>(r, s'). (r, size_sl s', elements s')) (remove (PyInt 24) s)))
     (run (map (\<lambda>i. Add (PyInt i)) [0..27] @ replicate 25 (RemoveAt 0)) init_sl)
   = Some ([], 3, [PyInt 25, PyInt 26, PyInt 27],
           Some (Inr True, 2, [PyInt 25, PyInt 26, PyInt 27]))"
  by code_simp

subsection \<open>The anchor count\<close>

text \<open>
  Claim C7. After every public operation, \<open>fast_count = 0\<close> holds exactly when
  \<open>size = 0\<close>, and \<open>fast_count \<ge> 2\<close> whenever \<open>size \<ge> 1\<close>.

  The code breaks it. The run of claim C6 leaves size 2 on a list of three nodes. Two calls
  of \<open>remove_at(0)\<close> bring the size to 0, which clears the fast lane, while the node holding
  27 is still head and tail. \<open>add(7)\<close> finds a head, appends, increments the size and then
  raises \<open>AttributeError\<close> on \<open>self.fast_tail.gap\<close>: the container is left with size 1 and
  \<open>fast_count\<close> 0. That exception is the only one of the run.
\<close>

theorem c7_size_without_fast_lane:
  "map_option
     (\<lambda>(rs, s). (filter raised rs, last rs, size_sl s, fast_count s, fast_head s, fast_tail s,
        elements s))
     (run (map (\<lambda>i. Add (PyInt i)) [0..27] @ replicate 25 (RemoveAt 0)
             @ [Remove (PyInt 24), RemoveAt 0, RemoveAt 0, Add (PyInt 7)]) init_sl)
   = Some ([Raised AttributeError], Raised AttributeError, 1, 0, None, None,
           [PyInt 27, PyInt 7])"
  by code_simp


subsection \<open>The anchor count on runs without such an exception\<close>

text \<open>
  An exception of that kind is the only way out of the invariant of claim C7. Along every
  run in which no call raises \<open>AttributeError\<close> or \<open>TypeError\<close>, the counters keep
  their promise, and head, tail and both sentinels exist whenever the size is at least one
  (\<open>anchor_count_without_crash\<close>, at the end). The proof follows each operation through
  the fields it assigns, and each loop by its own induction rule.
\<close>

lemma same_roots_refl: "same_roots s s"
  by (simp add: same_roots_def)

lemma same_roots_trans: "same_roots s s1 \<Longrightarrow> same_roots s1 s2 \<Longrightarrow> same_roots s s2"
  by (simp add: same_roots_def)

lemma setters_roots:
  "same_roots s (set_l_prev a v s)" "same_roots s (set_l_next a v s)"
  "same_roots s (set_l_fast a w s)" "same_roots s (set_f_target b v s)"
  "same_roots s (set_f_prev b w s)" "same_roots s (set_f_next b w s)"
  "same_roots s (set_f_gap b g s)"
  by (simp_all add: same_roots_def store_defs)

lemma setters_count:
  "fast_count (set_l_prev a v s) = fast_count s" "fast_count (set_l_next a v s) = fast_count s"
  "fast_count (set_l_fast a w s) = fast_count s" "fast_count (set_f_target b v s) = fast_count s"
  "fast_count (set_f_prev b w s) = fast_count s" "fast_count (set_f_next b w s) = fast_count s"
  "fast_count (set_f_gap b g s) = fast_count s"
  by (simp_all add: store_defs)

lemma update_tail_fast_roots:
  "same_roots s (update_tail_fast s) \<and> fast_count (update_tail_fast s) = fast_count s"
  by (simp add: update_tail_fast_def same_roots_def store_defs Let_def split: option.splits)

lemma append_fast_roots:
  "same_roots s (append_fast n g s)
   \<and> (fast_count (append_fast n g s) = fast_count s
      \<or> fast_tail s \<noteq> None \<and> fast_count (append_fast n g s) = fast_count s + 1)"
  by (simp add: append_fast_def same_roots_def store_defs Let_def split: option.splits)

lemma remove_fast_roots:
  "same_roots s (remove_fast f s)
   \<and> (fast_count (remove_fast f s) = fast_count s
      \<or> 2 < fast_count s \<and> fast_count (remove_fast f s) = fast_count s - 1)"
  by (simp add: remove_fast_def same_roots_def store_defs Let_def split: option.splits)

lemma get_dynamic_skip_roots:
  "same_roots s (snd (get_dynamic_skip s))
   \<and> fast_count (snd (get_dynamic_skip s)) = fast_count s"
  by (simp add: same_roots_def get_dynamic_skip_fields)

lemma clear_anchor_links_roots:
  assumes "clear_anchor_links c s = Some s'"
  shows "same_roots s s' \<and> fast_count s' = fast_count s"
proof (rule clear_anchor_links.raw_induct
    [where P = "\<lambda>c s s'. same_roots s s' \<and> fast_count s' = fast_count s", OF _ assms])
  fix loop c s s'
  assume IH: "\<And>c s s'. loop c s = Some s' \<Longrightarrow> same_roots s s' \<and> fast_count s' = fast_count s"
    and body: "(case c of
        None \<Rightarrow> Some s
      | Some c \<Rightarrow>
          if fast_tail s = Some c then Some s
          else
            let s1 = (case f_target (fnodes s ! c) of
                        None \<Rightarrow> s
                      | Some t \<Rightarrow> set_l_fast t None s)
            in loop (f_next (fnodes s1 ! c)) s1) = Some s'"
  show "same_roots s s' \<and> fast_count s' = fast_count s"
  proof (cases c)
    case None
    with body show ?thesis by (simp add: same_roots_refl)
  next
    case (Some a)
    show ?thesis
    proof (cases "fast_tail s = Some a")
      case True
      with Some body show ?thesis by (simp add: same_roots_refl)
    next
      case False
      let ?s1 = "case f_target (fnodes s ! a) of None \<Rightarrow> s | Some t \<Rightarrow> set_l_fast t None s"
      from False Some body have "loop (f_next (fnodes ?s1 ! a)) ?s1 = Some s'"
        by (simp add: Let_def)
      from IH [OF this] have "same_roots ?s1 s' \<and> fast_count s' = fast_count ?s1" .
      moreover have "same_roots s ?s1 \<and> fast_count ?s1 = fast_count s"
        by (simp add: same_roots_def store_defs split: option.splits)
      ultimately show ?thesis by (auto intro: same_roots_trans)
    qed
  qed
qed

lemma rebuild_anchors_roots:
  assumes "rebuild_anchors k c m g s = Some s'"
  shows "same_roots s s' \<and> fast_count s \<le> fast_count s'"
proof (rule rebuild_anchors.raw_induct
    [where P = "\<lambda>k c m g s s'. same_roots s s' \<and> fast_count s \<le> fast_count s'", OF _ assms])
  fix loop k c m g s s'
  assume IH: "\<And>k c m g s s'. loop k c m g s = Some s'
                \<Longrightarrow> same_roots s s' \<and> fast_count s \<le> fast_count s'"
    and body: "(case m of
        None \<Rightarrow> Some s
      | Some m \<Rightarrow>
          if tail s = Some m then Some s
          else
            if c > 0 \<and> c mod k = 0 \<and> l_next (lnodes s ! m) \<noteq> None
            then
              let s1 = append_fast (Some m) (g + 1) s
              in loop k (c + 1) (l_next (lnodes s1 ! m)) 0 s1
            else loop k (c + 1) (l_next (lnodes s ! m)) (g + 1) s) = Some s'"
  show "same_roots s s' \<and> fast_count s \<le> fast_count s'"
  proof (cases m)
    case None
    with body show ?thesis by (simp add: same_roots_refl)
  next
    case (Some a)
    show ?thesis
    proof (cases "tail s = Some a")
      case True
      with Some body show ?thesis by (simp add: same_roots_refl)
    next
      case False
      show ?thesis
      proof (cases "0 < c \<and> c mod k = 0 \<and> l_next (lnodes s ! a) \<noteq> None")
        case True
        let ?s1 = "append_fast (Some a) (g + 1) s"
        from True False Some body
        have "loop k (c + 1) (l_next (lnodes ?s1 ! a)) 0 ?s1 = Some s'"
          by (simp add: Let_def)
        from IH [OF this] append_fast_roots [of s "Some a" "g + 1"]
        show ?thesis by (auto intro: same_roots_trans)
      next
        case no: False
        with False Some body
        have "loop k (c + 1) (l_next (lnodes s ! a)) (g + 1) s = Some s'"
          by (simp split: if_splits)
        from IH [OF this] show ?thesis .
      qed
    qed
  qed
qed


lemma count_inv_keep:
  assumes "count_inv s" and "same_roots s s'"
    and "fast_count s' = fast_count s \<or> 2 \<le> fast_count s' \<and> fast_tail s \<noteq> None"
  shows "count_inv s'"
  using assms by (auto simp: count_inv_def same_roots_def)

lemma rebalance_roots:
  assumes "rebalance s = Some (r, s')"
  shows "same_roots s s'
    \<and> (fast_count s' = fast_count s \<or> 2 \<le> fast_count s' \<and> fast_tail s \<noteq> None)"
proof (cases "fast_head s = None \<or> fast_tail s = None \<or> head s = None \<or> size_sl s < 0")
  case True
  with assms show ?thesis
    by (auto simp: rebalance_def same_roots_refl split: option.splits)
next
  case False
  then obtain fh ft h where fh: "fast_head s = Some fh" and ft: "fast_tail s = Some ft"
    and h: "head s = Some h" and sz: "\<not> size_sl s < 0"
    by auto
  define s1 where "s1 = (if below_half_sqrt (fast_count s) (size_sl s)
                         then s\<lparr>current_skip := max MIN_SKIP (current_skip s div 2)\<rparr> else s)"
  have r1: "same_roots s s1" by (simp add: s1_def same_roots_def)
  from assms fh ft h sz obtain s2 where s2: "clear_anchor_links (f_next (fnodes s1 ! fh)) s1 = Some s2"
    by (auto simp: rebalance_def s1_def Let_def split: option.splits if_splits)
  define s5 where "s5 = (set_f_prev ft (Some fh) (set_f_next fh (Some ft) s2))\<lparr>fast_count := 2\<rparr>"
  have r5: "same_roots s2 s5" and c5: "fast_count s5 = 2"
    by (simp_all add: s5_def same_roots_def store_defs)
  define s6 where "s6 = snd (get_dynamic_skip s5)"
  have r6: "same_roots s5 s6" and c6: "fast_count s6 = fast_count s5"
    using get_dynamic_skip_roots [of s5] by (simp_all add: s6_def)
  from assms fh ft h sz s2 obtain s7
    where s7: "rebuild_anchors (fst (get_dynamic_skip s5)) 0 (head s6) 0 s6 = Some s7"
      and s': "s' = update_tail_fast s7"
    by (auto simp: rebalance_def s1_def [symmetric] s5_def [symmetric] s6_def Let_def split_beta
        split: option.splits)
  from clear_anchor_links_roots [OF s2] rebuild_anchors_roots [OF s7]
    update_tail_fast_roots [of s7] r1 r5 c5 r6 c6 s' ft
  show ?thesis by (auto simp: same_roots_def)
qed

lemma run_rebalance_roots:
  assumes "run_rebalance s = Some (r, s')"
  shows "same_roots s s'
    \<and> (fast_count s' = fast_count s \<or> 2 \<le> fast_count s' \<and> fast_tail s \<noteq> None)"
proof -
  from assms obtain r0 s0 where rb: "rebalance s = Some (r0, s0)"
    and s': "s' = s0 \<or> s' = s0\<lparr>ops_since_rebalance := 0\<rparr>"
    by (auto simp: run_rebalance_def split: option.splits sum.splits)
  from rebalance_roots [OF rb] s' show ?thesis by (auto simp: same_roots_def)
qed

lemma check_and_rebalance_roots:
  assumes "check_and_rebalance s = Some (r, s')"
  shows "same_roots s s'
    \<and> (fast_count s' = fast_count s \<or> 2 \<le> fast_count s' \<and> fast_tail s \<noteq> None)"
proof -
  let ?s1 = "s\<lparr>ops_since_rebalance := ops_since_rebalance s + 1\<rparr>"
  from assms have "s' = ?s1 \<or> run_rebalance ?s1 = Some (r, s')"
    by (auto simp: check_and_rebalance_def Let_def split: if_splits)
  then show ?thesis
  proof
    assume "s' = ?s1"
    then show ?thesis by (simp add: same_roots_def)
  next
    assume "run_rebalance ?s1 = Some (r, s')"
    from run_rebalance_roots [OF this] show ?thesis by (simp add: same_roots_def)
  qed
qed

lemma check_and_rebalance_inv:
  "check_and_rebalance s = Some (r, s') \<Longrightarrow> count_inv s \<Longrightarrow> count_inv s'"
  using check_and_rebalance_roots count_inv_keep by blast

lemma clear_fast_layer_fields:
  "head (clear_fast_layer s) = head s" "tail (clear_fast_layer s) = tail s"
  "size_sl (clear_fast_layer s) = size_sl s" "fast_head (clear_fast_layer s) = None"
  "fast_tail (clear_fast_layer s) = None" "fast_count (clear_fast_layer s) = 0"
  by (simp_all add: clear_fast_layer_def store_defs Let_def split: option.splits)

lemma init_fast_layer_first:
  assumes "head s = Some h" and "tail s = Some t" and "fast_head s = None"
  shows "head (init_fast_layer s) = head s \<and> tail (init_fast_layer s) = tail s
    \<and> size_sl (init_fast_layer s) = size_sl s
    \<and> fast_head (init_fast_layer s) \<noteq> None \<and> fast_tail (init_fast_layer s) \<noteq> None
    \<and> fast_count (init_fast_layer s) = 2"
  using assms
  by (simp add: init_fast_layer_def update_tail_fast_def clear_fast_layer_def store_defs Let_def
      nth_append nth_list_update split: prod.splits)

lemma add_nonempty_roots:
  assumes "head s = Some h"
  shows "fst (add v s) = Inl AttributeError
    \<or> head (snd (add v s)) = head s \<and> tail (snd (add v s)) \<noteq> None
      \<and> size_sl (snd (add v s)) = size_sl s + 1
      \<and> fast_head (snd (add v s)) = fast_head s \<and> fast_tail (snd (add v s)) = fast_tail s
      \<and> fast_tail s \<noteq> None
      \<and> (fast_count (snd (add v s)) = fast_count s
          \<or> fast_count (snd (add v s)) = fast_count s + 1)"
  using assms
  by (simp add: add_def Let_def split_beta get_dynamic_skip_fields store_defs
      update_tail_fast_def append_fast_def split: option.splits)

lemma add_inv:
  assumes "count_inv s" and "fst (add v s) \<noteq> Inl AttributeError"
  shows "count_inv (snd (add v s))"
proof (cases "head s")
  case None
  let ?s3 = "(snd (new_ListNode v s))\<lparr>head := Some (length (lnodes s)),
               tail := Some (length (lnodes s)), size_sl := 1\<rparr>"
  from None assms(1) have "fast_head ?s3 = None"
    by (simp add: count_inv_def new_ListNode_def)
  from init_fast_layer_first [of ?s3, OF _ _ this]
  have "head (init_fast_layer ?s3) \<noteq> None \<and> tail (init_fast_layer ?s3) \<noteq> None
    \<and> size_sl (init_fast_layer ?s3) = 1
    \<and> fast_head (init_fast_layer ?s3) \<noteq> None
    \<and> fast_tail (init_fast_layer ?s3) \<noteq> None \<and> fast_count (init_fast_layer ?s3) = 2"
    by simp
  moreover from None have "snd (add v s) = (init_fast_layer ?s3)\<lparr>pending_gap := 0\<rparr>"
    by (simp add: add_def new_ListNode_def Let_def)
  ultimately show ?thesis by (auto simp: count_inv_def)
next
  case (Some h)
  from add_nonempty_roots [OF this, of v] assms Some show ?thesis
    by (auto simp: count_inv_def)
qed


lemma get_dynamic_skip_inv: "count_inv (snd (get_dynamic_skip s)) = count_inv s"
  by (simp add: count_inv_def get_dynamic_skip_fields)

lemma get_node_inv: "get_node i s = Some (r, s') \<Longrightarrow> count_inv s \<Longrightarrow> count_inv s'"
  using get_node_state [of i s r s'] by (auto simp: get_dynamic_skip_inv)

lemma get_inv: "get i s = Some (r, s') \<Longrightarrow> count_inv s \<Longrightarrow> count_inv s'"
  using get_state [of i s r s'] by (auto simp: get_dynamic_skip_inv)

lemma clear_inv: "count_inv (clear s)"
  by (simp add: clear_def count_inv_def clear_fast_layer_fields)


lemma insert_sl_inv:
  assumes "insert_sl i v s = Some (r, s')" and "count_inv s" and "r \<noteq> Inl AttributeError"
  shows "count_inv s'"
proof -
  consider (range) "i < 0 \<or> i > size_sl s" | (append) "i = size_sl s" "0 \<le> i"
    | (head) "i = 0" "1 \<le> size_sl s" | (interior) "0 < i" "i < size_sl s"
    by linarith
  then show ?thesis
  proof cases
    case range
    with assms show ?thesis by (simp add: insert_sl_def)
  next
    case append
    with assms have "add v s = (r, s')" by (simp add: insert_sl_def)
    with add_inv [of s v] assms show ?thesis by simp
  next
    case head
    with assms(1,2) show ?thesis
      by (auto simp: insert_sl_def Let_def split_beta store_defs count_inv_def
          split: option.splits if_splits)
  next
    case interior
    then have big: "2 \<le> size_sl s" by simp
    from interior assms(1) obtain u rg s1 where gn: "get_node i s = Some (rg, s1)"
      and rest: "(case (rg, s1) of
           (Inl e, s1) \<Rightarrow> Some (Inl e, s1)
         | (Inr None, s1) \<Rightarrow> Some (Inl ValueError, s1)
         | (Inr (Some curr_node), s1) \<Rightarrow>
             let (node, s2) = new_ListNode v s1;
                 s3 = set_l_prev node (l_prev (lnodes s2 ! curr_node)) s2;
                 s4 = set_l_next node (Some curr_node) s3;
                 s5 = (case l_prev (lnodes s4 ! curr_node) of
                         None \<Rightarrow> s4
                       | Some p \<Rightarrow> set_l_next p (Some node) s4);
                 s6 = set_l_prev curr_node (Some node) s5;
                 s7 = s6\<lparr>size_sl := size_sl s6 + 1\<rparr>;
                 s8 = (case u of
                         None \<Rightarrow> s7
                       | Some u \<Rightarrow> set_f_gap u (max 1 (f_gap (fnodes s7 ! u) + 1)) s7)
             in if i > 1 \<and> i < size_sl s8 - 1
                then
                  let (skip, s9) = get_dynamic_skip s8
                  in if (i + 1) mod skip = 0 then check_and_rebalance s9
                     else Some (Inr (), s9)
                else Some (Inr (), s8)) = Some (r, s')"
      by (auto simp: insert_sl_def split: option.splits)
    from get_node_inv [OF gn assms(2)] have inv1: "count_inv s1" .
    from get_node_state [OF gn] big have big1: "2 \<le> size_sl s1"
      by (auto simp: get_dynamic_skip_fields)
    show ?thesis
    proof (cases rg)
      case (Inl e)
      with rest inv1 show ?thesis by simp
    next
      case (Inr c)
      show ?thesis
      proof (cases c)
        case None
        with Inr rest inv1 show ?thesis by simp
      next
        case (Some curr_node)
        define s8 where "s8 =
            (let (node, s2) = new_ListNode v s1;
                 s3 = set_l_prev node (l_prev (lnodes s2 ! curr_node)) s2;
                 s4 = set_l_next node (Some curr_node) s3;
                 s5 = (case l_prev (lnodes s4 ! curr_node) of
                         None \<Rightarrow> s4
                       | Some p \<Rightarrow> set_l_next p (Some node) s4);
                 s6 = set_l_prev curr_node (Some node) s5;
                 s7 = s6\<lparr>size_sl := size_sl s6 + 1\<rparr>
             in (case u of
                         None \<Rightarrow> s7
                       | Some u \<Rightarrow> set_f_gap u (max 1 (f_gap (fnodes s7 ! u) + 1)) s7))"
        have inv8: "count_inv s8"
          using inv1 big1
          by (auto simp: s8_def Let_def split_beta store_defs count_inv_def split: option.splits)
        from rest Inr Some
        have "s' = s8 \<or> s' = snd (get_dynamic_skip s8)
          \<or> check_and_rebalance (snd (get_dynamic_skip s8)) = Some (r, s')"
          by (auto simp: s8_def Let_def split_beta split: if_splits)
        with inv8 show ?thesis
          by (auto simp: get_dynamic_skip_inv dest: check_and_rebalance_inv)
      qed
    qed
  qed
qed


lemma dec_update_fast_roots:
  "same_roots s (dec_update_fast u s) \<and> fast_count (dec_update_fast u s) = fast_count s"
  by (simp add: dec_update_fast_def same_roots_def store_defs split: option.splits)

lemma remove_at_inv:
  assumes "remove_at i s = Some (r, s')" and "count_inv s" and "r \<noteq> Inl AttributeError"
  shows "count_inv s'"
proof -
  consider (range) "i < 0 \<or> i \<ge> size_sl s" | (head) "i = 0" "1 \<le> size_sl s"
    | (tail) "i = size_sl s - 1" "0 < i" | (interior) "0 < i" "i < size_sl s - 1"
    by linarith
  then show ?thesis
  proof cases
    case range
    with assms show ?thesis by (auto simp: remove_at_def)
  next
    case head
    with assms show ?thesis
      by (auto simp: remove_at_def Let_def store_defs count_inv_def clear_fast_layer_fields
          split: option.splits if_splits)
  next
    case tail
    with assms(1,2) update_tail_fast_roots show ?thesis
      by (auto simp: remove_at_def Let_def store_defs count_inv_def clear_fast_layer_fields
          update_tail_fast_def split: option.splits if_splits)
  next
    case interior
    then have big: "3 \<le> size_sl s" by simp
    from interior assms(1) obtain u rg s1 where gn: "get_node i s = Some (rg, s1)"
      and rest: "(case (rg, s1) of
           (Inl e, s1) \<Rightarrow> Some (Inl e, s1)
         | (Inr None, s1) \<Rightarrow> Some (Inl ValueError, s1)
         | (Inr (Some target), s1) \<Rightarrow>
             let d = l_data (lnodes s1 ! target);
                 s2 = (case l_prev (lnodes s1 ! target) of
                         None \<Rightarrow> s1
                       | Some p \<Rightarrow> set_l_next p (l_next (lnodes s1 ! target)) s1);
                 s3 = (case l_next (lnodes s2 ! target) of
                         None \<Rightarrow> s2
                       | Some n \<Rightarrow> set_l_prev n (l_prev (lnodes s2 ! target)) s2);
                 s4 = s3\<lparr>size_sl := size_sl s3 - 1\<rparr>;
                 s5 = (case l_fast (lnodes s4 ! target) of
                         None \<Rightarrow> dec_update_fast u s4
                       | Some fast_node \<Rightarrow>
                           if fast_head s4 \<noteq> Some fast_node \<and> fast_tail s4 \<noteq> Some fast_node
                           then
                             let s4a = (case f_next (fnodes s4 ! fast_node) of
                                          None \<Rightarrow> s4
                                        | Some nx \<Rightarrow>
                                            set_f_gap nx
                                              (f_gap (fnodes s4 ! nx)
                                                 + (f_gap (fnodes s4 ! fast_node) - 1)) s4)
                             in remove_fast (Some fast_node) s4a
                           else dec_update_fast u s4)
             in if i > 1 \<and> i < size_sl s5 - 1
                then
                  (case check_and_rebalance s5 of
                     None \<Rightarrow> None
                   | Some (Inl e, s6) \<Rightarrow> Some (Inl e, s6)
                   | Some (Inr u, s6) \<Rightarrow> Some (Inr d, s6))
                else Some (Inr d, s5)) = Some (r, s')"
      by (auto simp: remove_at_def split: option.splits)
    from get_node_inv [OF gn assms(2)] have inv1: "count_inv s1" .
    from get_node_state [OF gn] big have big1: "3 \<le> size_sl s1"
      by (auto simp: get_dynamic_skip_fields)
    show ?thesis
    proof (cases rg)
      case (Inl e)
      with rest inv1 show ?thesis by simp
    next
      case (Inr c)
      show ?thesis
      proof (cases c)
        case None
        with Inr rest inv1 show ?thesis by simp
      next
        case (Some target)
        define s4 where "s4 =
            (let s2 = (case l_prev (lnodes s1 ! target) of
                         None \<Rightarrow> s1
                       | Some p \<Rightarrow> set_l_next p (l_next (lnodes s1 ! target)) s1);
                 s3 = (case l_next (lnodes s2 ! target) of
                         None \<Rightarrow> s2
                       | Some n \<Rightarrow> set_l_prev n (l_prev (lnodes s2 ! target)) s2)
             in s3\<lparr>size_sl := size_sl s3 - 1\<rparr>)"
        define s5 where "s5 =
            (case l_fast (lnodes s4 ! target) of
                         None \<Rightarrow> dec_update_fast u s4
                       | Some fast_node \<Rightarrow>
                           if fast_head s4 \<noteq> Some fast_node \<and> fast_tail s4 \<noteq> Some fast_node
                           then
                             let s4a = (case f_next (fnodes s4 ! fast_node) of
                                          None \<Rightarrow> s4
                                        | Some nx \<Rightarrow>
                                            set_f_gap nx
                                              (f_gap (fnodes s4 ! nx)
                                                 + (f_gap (fnodes s4 ! fast_node) - 1)) s4)
                             in remove_fast (Some fast_node) s4a
                           else dec_update_fast u s4)"
        have inv4: "count_inv s4"
          using inv1 big1
          by (auto simp: s4_def Let_def store_defs count_inv_def split: option.splits)
        have sz4: "2 \<le> size_sl s4"
          using big1 by (simp add: s4_def Let_def store_defs split: option.splits)
        have "same_roots s4 s5
           \<and> (fast_count s5 = fast_count s4
               \<or> 2 < fast_count s4 \<and> fast_count s5 = fast_count s4 - 1)"
        proof (cases "l_fast (lnodes s4 ! target)")
          case None
          then show ?thesis using dec_update_fast_roots [of s4 u] by (simp add: s5_def)
        next
          case (Some fast_node)
          let ?s4a = "case f_next (fnodes s4 ! fast_node) of
                        None \<Rightarrow> s4
                      | Some nx \<Rightarrow>
                          set_f_gap nx
                            (f_gap (fnodes s4 ! nx) + (f_gap (fnodes s4 ! fast_node) - 1)) s4"
          have a: "same_roots s4 ?s4a \<and> fast_count ?s4a = fast_count s4"
            by (simp add: same_roots_def store_defs split: option.splits)
          from Some remove_fast_roots [of ?s4a "Some fast_node"] a dec_update_fast_roots [of s4 u]
          show ?thesis
            by (auto simp: s5_def Let_def same_roots_def)
        qed
        with inv4 sz4 have inv5: "count_inv s5"
          by (auto simp: count_inv_def same_roots_def)
        from rest Inr Some
        have "s' = s5 \<or> (\<exists>r'. check_and_rebalance s5 = Some (r', s'))"
          by (auto simp: s4_def s5_def Let_def split: if_splits option.splits sum.splits)
        with inv5 show ?thesis
          by (auto dest: check_and_rebalance_inv)
      qed
    qed
  qed
qed


lemma remove_node_and_update_inv:
  assumes "remove_node_and_update n f s = Some (r, s')" and "count_inv s" and "2 \<le> size_sl s"
  shows "count_inv s'"
proof -
  define s2 where "s2 =
     (let s1 = (case l_prev (lnodes s ! n) of
                  None \<Rightarrow> s
                | Some p \<Rightarrow> set_l_next p (l_next (lnodes s ! n)) s)
      in (case l_next (lnodes s1 ! n) of
                  None \<Rightarrow> s1
                | Some m \<Rightarrow> set_l_prev m (l_prev (lnodes s1 ! n)) s1))"
  define s3 where "s3 =
     (case l_fast (lnodes s2 ! n) of
        Some g \<Rightarrow> remove_fast (Some g) s2
      | None \<Rightarrow>
          (case f_next (fnodes s2 ! f) of
             None \<Rightarrow> s2
           | Some nx \<Rightarrow> set_f_gap nx (max 1 (f_gap (fnodes s2 ! nx) - 1)) s2))"
  define s4 where "s4 = s3\<lparr>size_sl := size_sl s3 - 1\<rparr>"
  have r2: "same_roots s s2 \<and> fast_count s2 = fast_count s"
    by (simp add: s2_def Let_def same_roots_def store_defs split: option.splits)
  have r3: "same_roots s2 s3
    \<and> (fast_count s3 = fast_count s2 \<or> 2 < fast_count s2 \<and> fast_count s3 = fast_count s2 - 1)"
  proof (cases "l_fast (lnodes s2 ! n)")
    case None
    then show ?thesis
      by (simp add: s3_def same_roots_def store_defs split: option.splits)
  next
    case (Some g)
    with remove_fast_roots [of s2 "Some g"] show ?thesis
      by (simp add: s3_def)
  qed
  from r2 r3 assms(2,3) have "count_inv s4"
    by (auto simp: s4_def count_inv_def same_roots_def)
  moreover from assms(1) have "check_and_rebalance s4 = Some (r, s')"
    unfolding remove_node_and_update_def s4_def s3_def s2_def Let_def .
  ultimately show ?thesis by (rule check_and_rebalance_inv [rotated])
qed

lemma search_chunk_cases:
  assumes "search_chunk f v s = Some (r, s')"
  shows "s' = s \<and> r \<noteq> Inr True
    \<or> (\<exists>n g r0. remove_node_and_update n g s = Some (r0, s'))"
  using assms
  by (auto simp: search_chunk_def removed_true_def Let_def
      split: option.splits scan.splits sum.splits if_splits)

lemma search_chunk_inv:
  assumes "search_chunk f v s = Some (r, s')" and "count_inv s" and "2 \<le> size_sl s"
  shows "count_inv s'"
  using search_chunk_cases [OF assms(1)] assms(2,3)
  by (auto dest: remove_node_and_update_inv)

lemma search_chunk_false: "search_chunk f v s = Some (Inr False, s') \<Longrightarrow> s' = s"
  by (auto simp: search_chunk_def removed_true_def Let_def
      split: option.splits scan.splits sum.splits if_splits)


lemma remove_loop_inv:
  assumes "remove_loop v ff bf fi bi s = Some res"
  shows "count_inv s \<longrightarrow> (fi < bi \<longrightarrow> 2 \<le> size_sl s) \<longrightarrow> count_inv (snd res)"
proof (rule remove_loop.raw_induct
    [where P = "\<lambda>v ff bf fi bi s res.
        count_inv s \<longrightarrow> (fi < bi \<longrightarrow> 2 \<le> size_sl s) \<longrightarrow> count_inv (snd res)", OF _ assms])
  fix loop v front_fast back_fast front_idx back_idx s res
  assume IH: "\<And>v ff bf fi bi s res. loop v ff bf fi bi s = Some res
      \<Longrightarrow> count_inv s \<longrightarrow> (fi < bi \<longrightarrow> 2 \<le> size_sl s) \<longrightarrow> count_inv (snd res)"
    and body: "(case front_fast of
        None \<Rightarrow> Some (Inr False, s)
      | Some ff \<Rightarrow>
          (case back_fast of
             None \<Rightarrow> Some (Inr False, s)
           | Some bf \<Rightarrow>
               if f_next (fnodes s ! ff) = None \<or> f_prev (fnodes s ! bf) = None
                  \<or> \<not> front_idx < back_idx
               then Some (Inr False, s)
               else
                 (case search_chunk (Some ff) v s of
                    None \<Rightarrow> None
                  | Some (r1, s1) \<Rightarrow>
                      if r1 \<noteq> Inr False then Some (r1, s1)
                      else
                        (case f_next (fnodes s1 ! ff) of
                           None \<Rightarrow> Some (Inl AttributeError, s1)
                         | Some fnx \<Rightarrow>
                             let front_idx1 = front_idx + f_gap (fnodes s1 ! fnx)
                             in if front_idx1 < back_idx
                                then
                                  (case search_chunk (f_prev (fnodes s1 ! bf)) v s1 of
                                     None \<Rightarrow> None
                                   | Some (r2, s2) \<Rightarrow>
                                       if r2 \<noteq> Inr False then Some (r2, s2)
                                       else
                                         loop v (Some fnx) (f_prev (fnodes s2 ! bf))
                                           front_idx1 (back_idx - f_gap (fnodes s2 ! bf)) s2)
                                else loop v (Some fnx) (Some bf) front_idx1 back_idx s1))))
       = Some res"
  show "count_inv s \<longrightarrow> (front_idx < back_idx \<longrightarrow> 2 \<le> size_sl s) \<longrightarrow> count_inv (snd res)"
  proof (intro impI)
    assume inv: "count_inv s" and sz: "front_idx < back_idx \<longrightarrow> 2 \<le> size_sl s"
    show "count_inv (snd res)"
    proof (cases "front_fast = None \<or> back_fast = None
        \<or> f_next (fnodes s ! the front_fast) = None \<or> f_prev (fnodes s ! the back_fast) = None
        \<or> \<not> front_idx < back_idx")
      case True
      with body inv show ?thesis by (auto split: option.splits)
    next
      case False
      then obtain ff bf where ff: "front_fast = Some ff" and bf: "back_fast = Some bf"
        and go: "f_next (fnodes s ! ff) \<noteq> None" "f_prev (fnodes s ! bf) \<noteq> None"
          "front_idx < back_idx"
        by auto
      with sz have big: "2 \<le> size_sl s" by simp
      from body ff bf go obtain r1 s1 where c1: "search_chunk (Some ff) v s = Some (r1, s1)"
        by (auto split: option.splits)
      from search_chunk_inv [OF c1 inv big] have inv1: "count_inv s1" .
      show ?thesis
      proof (cases "r1 = Inr False")
        case False
        with body ff bf go c1 inv1 show ?thesis by auto
      next
        case True
        with c1 search_chunk_false have s1: "s1 = s" by blast
        show ?thesis
        proof (cases "f_next (fnodes s ! ff)")
          case None
          with go show ?thesis by simp
        next
          case (Some fnx)
          let ?fi1 = "front_idx + f_gap (fnodes s ! fnx)"
          show ?thesis
          proof (cases "?fi1 < back_idx")
            case no: False
            with body ff bf go c1 True s1 Some
            have "loop v (Some fnx) (Some bf) ?fi1 back_idx s = Some res"
              by (simp add: Let_def)
            from IH [OF this] inv big show ?thesis by simp
          next
            case yes: True
            with body ff bf go c1 True s1 Some obtain r2 s2
              where c2: "search_chunk (f_prev (fnodes s ! bf)) v s = Some (r2, s2)"
              by (auto simp: Let_def split: option.splits)
            from search_chunk_inv [OF c2 inv big] have inv2: "count_inv s2" .
            show ?thesis
            proof (cases "r2 = Inr False")
              case False
              with body ff bf go c1 True s1 Some yes c2 inv2 show ?thesis
                by (auto simp: Let_def)
            next
              case r2: True
              with c2 search_chunk_false have s2: "s2 = s" by blast
              with body ff bf go c1 True s1 Some yes c2 r2
              have "loop v (Some fnx) (f_prev (fnodes s ! bf)) ?fi1
                      (back_idx - f_gap (fnodes s ! bf)) s = Some res"
                by (simp add: Let_def)
              from IH [OF this] inv big show ?thesis by simp
            qed
          qed
        qed
      qed
    qed
  qed
qed

lemma removed_at_cases:
  assumes "removed_at x = Some (r, s')" and "r \<noteq> Inl AttributeError"
  shows "\<exists>r0. x = Some (r0, s') \<and> r0 \<noteq> Inl AttributeError"
  using assms by (auto simp: removed_at_def split: option.splits sum.splits)

lemma remove_inv:
  assumes "remove v s = Some (r, s')" and "count_inv s" and "r \<noteq> Inl AttributeError"
  shows "count_inv s'"
proof -
  from assms(1)
  have "s' = s \<or> (\<exists>i. removed_at (remove_at i s) = Some (r, s'))
    \<or> remove_loop v (fast_head s) (fast_tail s) 0 (size_sl s - 1) s = Some (r, s')"
    by (auto simp: remove_def split: option.splits if_splits)
  then show ?thesis
  proof (elim disjE exE)
    assume "s' = s"
    with assms(2) show ?thesis by simp
  next
    fix i
    assume "removed_at (remove_at i s) = Some (r, s')"
    from removed_at_cases [OF this assms(3)] obtain r0
      where "remove_at i s = Some (r0, s')" and "r0 \<noteq> Inl AttributeError"
      by blast
    with assms(2) show ?thesis by (auto intro: remove_at_inv)
  next
    assume "remove_loop v (fast_head s) (fast_tail s) 0 (size_sl s - 1) s = Some (r, s')"
    from remove_loop_inv [OF this] assms(2) show ?thesis by simp
  qed
qed

lemma not_crashed_reply: "\<not> crashed (reply_of f r) \<Longrightarrow> r \<noteq> Inl AttributeError"
  by (auto simp: reply_of_def)

lemma step_inv:
  assumes "step x s = Some (r, s')" and "count_inv s" and "\<not> crashed r"
  shows "count_inv s'"
proof (cases x)
  case (Add v)
  with assms(1) have "snd (add v s) = s'" and "r = reply_of (\<lambda>u. Returned) (fst (add v s))"
    by (auto split: prod.splits)
  with assms(3) add_inv [OF assms(2), of v] not_crashed_reply show ?thesis
    by auto
next
  case (Insert i v)
  with assms(1) obtain r0 where "insert_sl i v s = Some (r0, s')"
    and "r = reply_of (\<lambda>u. Returned) r0"
    by auto
  with assms(2,3) insert_sl_inv [of i v s r0 s'] not_crashed_reply show ?thesis
    by auto
next
  case (RemoveAt i)
  with assms(1) obtain r0 where "remove_at i s = Some (r0, s')" and "r = reply_of ReturnedVal r0"
    by auto
  with assms(2,3) remove_at_inv [of i s r0 s'] not_crashed_reply show ?thesis
    by auto
next
  case (Remove v)
  with assms(1) obtain r0 where "remove v s = Some (r0, s')" and "r = reply_of ReturnedBool r0"
    by auto
  with assms(2,3) remove_inv [of v s r0 s'] not_crashed_reply show ?thesis
    by auto
next
  case Clear
  with assms(1) show ?thesis by (auto simp: clear_inv)
next
  case (Get i)
  with assms(1) obtain r0 where "get i s = Some (r0, s')" by auto
  with assms(2) show ?thesis by (auto intro: get_inv)
next
  case Len
  with assms(1,2) show ?thesis by auto
qed

lemma run_inv:
  "run xs s = Some (rs, s') \<Longrightarrow> count_inv s \<Longrightarrow> \<not> list_ex crashed rs \<Longrightarrow> count_inv s'"
proof (induction xs arbitrary: s rs)
  case Nil
  then show ?case by simp
next
  case (Cons x xs)
  from Cons.prems(1) obtain r s1 rs1 where st: "step x s = Some (r, s1)"
    and rn: "run xs s1 = Some (rs1, s')" and rs: "rs = r # rs1"
    by (auto split: option.splits)
  from Cons.prems(3) rs have "\<not> crashed r" and nc: "\<not> list_ex crashed rs1" by simp_all
  from step_inv [OF st Cons.prems(2) this(1)] have "count_inv s1" .
  from Cons.IH [OF rn this nc] show ?case .
qed

lemma count_inv_init: "count_inv init_sl"
  by (simp add: count_inv_def init_sl_def)

lemma anchor_count_without_crash:
  assumes "run xs init_sl = Some (rs, s)" and "\<not> list_ex crashed rs"
  shows "(fast_count s = 0 \<longleftrightarrow> size_sl s = 0)
    \<and> (1 \<le> size_sl s
         \<longrightarrow> 2 \<le> fast_count s \<and> head s \<noteq> None \<and> tail s \<noteq> None
             \<and> fast_head s \<noteq> None \<and> fast_tail s \<noteq> None)"
  using run_inv [OF assms(1) count_inv_init assms(2)]
  by (auto simp: count_inv_def)

subsection \<open>add on a non-empty list\<close>

text \<open>
  Claim C5. For every non-empty list, \<open>add(value)\<close> appends the value to the primary tail,
  re-points the tail sentinel and increments \<open>pending_gap\<close>; when \<open>pending_gap\<close> then
  reaches the current skip distance, the node just before the new tail is promoted to a
  permanent anchor with gap \<open>pending_gap - 1\<close>, and the tail sentinel's gap and
  \<open>pending_gap\<close> are reset to 1; otherwise the tail sentinel's gap is set to \<open>pending_gap\<close>.

  The code breaks it. After \<open>add(0)\<close>, ..., \<open>add(27)\<close>, 25 times \<open>remove_at(0)\<close>,
  \<open>remove(24)\<close> and two more \<open>remove_at(0)\<close> no call has raised, and the node holding 27 is
  head and tail. The size, miscounted by \<open>remove(24)\<close>, is 0, so the last \<open>remove_at\<close> has
  cleared the fast lane: there is no tail sentinel. \<open>add(7)\<close> finds a head, takes the
  non-empty path, appends the node, increments the size and \<open>pending_gap\<close>, and raises
  \<open>AttributeError\<close> on \<open>self.fast_tail.gap\<close>. The list is then 27, 7 with size 1, and
  \<open>add(8)\<close> raises again in the same place.
\<close>

theorem c5_add_raises_on_nonempty:
  "map_option
     (\<lambda>(rs, s). (filter raised rs, elements s, head s, tail s, size_sl s, fast_tail s,
        fst (add (PyInt 7) s),
        (case snd (add (PyInt 7) s) of s1 \<Rightarrow>
           (elements s1, tail s1, size_sl s1, fast_tail s1, pending_gap s1,
            fst (add (PyInt 8) s1), elements (snd (add (PyInt 8) s1)),
            size_sl (snd (add (PyInt 8) s1))))))
     (run (map (\<lambda>i. Add (PyInt i)) [0..27] @ replicate 25 (RemoveAt 0)
             @ [Remove (PyInt 24), RemoveAt 0, RemoveAt 0]) init_sl)
   = Some ([], [PyInt 27], Some 27, Some 27, 0, None,
           Inl AttributeError,
           ([PyInt 27, PyInt 7], Some 28, 1, None, 1,
            Inl AttributeError, [PyInt 27, PyInt 7, PyInt 8], 2))"
  by code_simp

end
